theory Spec2Isabelle
  imports Complex_Main "HOL-Library.Multiset" "HOL-Library.AList"
begin

section \<open>Morph engine: shape factors\<close>

text \<open>
  Python floats are modelled as HOL reals throughout: every arithmetic step is exact, and
  rounding is not part of the model.

  The factor table of \<open>HumanSolver.calculate_factors\<close> is a dictionary from tag value to
  weight, filled by successive assignments.  The assignments are grouped as the source's
  comments group them (gender, age, muscle, weight, height, race, cup, firmness, genitals,
  universal); the three assignments that the source repeats for muscle, weight, height and
  cup are the one function \<open>set_bipolar\<close>.
\<close>

type_synonym factors = "string \<rightharpoonup> real"

text \<open>\<open>factors['k']\<close> for a key that the table holds.\<close>

definition fget :: "factors \<Rightarrow> string \<Rightarrow> real" where
  "fget f k = the (f k)"

definition set_gender :: "real \<Rightarrow> factors \<Rightarrow> factors" where
  "set_gender gender f =
    (let f = f(''male'' \<mapsto> gender);
         f = f(''female'' \<mapsto> 1 - gender)
     in f)"

definition set_age :: "real \<Rightarrow> factors \<Rightarrow> factors" where
  "set_age age f =
    (if age < 0.5 then
       (let f = f(''old'' \<mapsto> 0);
            f = f(''baby'' \<mapsto> max 0 (1 - age * 5.333));
            f = f(''young'' \<mapsto> max 0 ((age - 0.1875) * 3.2));
            f = f(''child'' \<mapsto> max 0 (min 1 (5.333 * age) - fget f ''young''))
        in f)
     else
       (let f = f(''child'' \<mapsto> 0);
            f = f(''baby'' \<mapsto> 0);
            f = f(''old'' \<mapsto> max 0 (age * 2 - 1));
            f = f(''young'' \<mapsto> 1 - fget f ''old'')
        in f))"

definition set_bipolar :: "string \<Rightarrow> string \<Rightarrow> string \<Rightarrow> real \<Rightarrow> factors \<Rightarrow> factors" where
  "set_bipolar hi lo mid x f =
    (let f = f(hi \<mapsto> max 0 (x * 2 - 1));
         f = f(lo \<mapsto> max 0 (1 - x * 2));
         f = f(mid \<mapsto> 1 - (fget f hi + fget f lo))
     in f)"

definition set_race :: "factors \<Rightarrow> factors" where
  "set_race f =
    (let f = f(''african'' \<mapsto> 0.333);
         f = f(''asian'' \<mapsto> 0.333);
         f = f(''caucasian'' \<mapsto> 0.334)
     in f)"

definition set_firmness :: "factors \<Rightarrow> factors" where
  "set_firmness f =
    (let f = f(''maxfirmness'' \<mapsto> 0);
         f = f(''minfirmness'' \<mapsto> 0);
         f = f(''averagefirmness'' \<mapsto> 1)
     in f)"

definition set_genitals :: "real \<Rightarrow> factors \<Rightarrow> factors" where
  "set_genitals genital_size f =
    (let f = f(''penis-length-incr'' \<mapsto> max 0 (genital_size * 2 - 1));
         f = f(''penis-length-decr'' \<mapsto> max 0 (1 - genital_size * 2));
         f = f(''penis-testicles-incr'' \<mapsto> fget f ''penis-length-incr'');
         f = f(''penis-testicles-decr'' \<mapsto> fget f ''penis-length-decr'');
         f = f(''penis-circ-incr'' \<mapsto> 0);
         f = f(''penis-circ-decr'' \<mapsto> 0)
     in f)"

definition calculate_factors ::
  "real \<Rightarrow> real \<Rightarrow> real \<Rightarrow> real \<Rightarrow> real \<Rightarrow> real \<Rightarrow> real \<Rightarrow> factors" where
  "calculate_factors age gender weight muscle height breast_size genital_size =
    (let f = Map.empty;
         f = set_gender gender f;
         f = set_age age f;
         f = set_bipolar ''maxmuscle'' ''minmuscle'' ''averagemuscle'' muscle f;
         f = set_bipolar ''maxweight'' ''minweight'' ''averageweight'' weight f;
         f = set_bipolar ''maxheight'' ''minheight'' ''averageheight'' height f;
         f = set_race f;
         f = set_bipolar ''maxcup'' ''mincup'' ''averagecup'' breast_size f;
         f = set_firmness f;
         f = set_genitals genital_size f;
         f = f(''universal'' \<mapsto> 1)
     in f)"

section \<open>Morph engine: blending the targets\<close>

text \<open>
  Vertices and displacements are 3-vectors of reals; a mesh's vertex array is a list of
  them.  Vectors add componentwise.
\<close>

datatype vec3 = Vec3 (vx: real) (vy: real) (vz: real)

instantiation vec3 :: comm_monoid_add
begin
definition zero_vec3 :: vec3 where "zero_vec3 = Vec3 0 0 0"
definition plus_vec3 :: "vec3 \<Rightarrow> vec3 \<Rightarrow> vec3" where
  "plus_vec3 a b = Vec3 (vx a + vx b) (vy a + vy b) (vz a + vz b)"
instance
  by standard (simp_all add: zero_vec3_def plus_vec3_def)
end

definition smul :: "real \<Rightarrow> vec3 \<Rightarrow> vec3" where
  "smul w d = Vec3 (vx d * w) (vy d * w) (vz d * w)"

text \<open>The exceptions of the modelled code: numpy's IndexError and LinAlgError.\<close>

datatype error = IndexError | LinAlgError

text \<open>
  A morph target (an entry of \<open>TargetParser.scan_targets\<close>): its tags, a dictionary from
  category to a tag value that is a string or \<open>True\<close> (kept in insertion order, the order in
  which \<open>solve_mesh\<close> walks it), and its sparse displacement data, \<open>None\<close> when the file
  gave no valid line.  \<open>load_target_data\<close> appends to the index array and the delta array
  in the same step, so the two arrays are one list of pairs here.
\<close>

datatype tag = TagTrue | TagVal string

record target =
  tags :: "(string \<times> tag) list"
  data :: "(int \<times> vec3) list option"

text \<open>
  numpy indexing of an array of n rows by an integer: a negative index counts from the
  end, anything outside \<open>[-n, n)\<close> raises IndexError.
\<close>

definition norm_index :: "nat \<Rightarrow> int \<Rightarrow> nat option" where
  "norm_index n i =
     (if 0 \<le> i \<and> i < int n then Some (nat i)
      else if - int n \<le> i \<and> i < 0 then Some (nat (i + int n))
      else None)"

fun norm_indices :: "nat \<Rightarrow> (int \<times> 'a) list \<Rightarrow> (nat \<times> 'a) list option" where
  "norm_indices n [] = Some []"
| "norm_indices n ((i, x) # r) =
     (case norm_index n i of
        None \<Rightarrow> None
      | Some j \<Rightarrow> (case norm_indices n r of None \<Rightarrow> None | Some r' \<Rightarrow> Some ((j, x) # r')))"

text \<open>
  \<open>a[js] = xs\<close> writes the rows in order, so for an index that occurs twice the last
  row written stays.
\<close>

fun scatter :: "'a list \<Rightarrow> (nat \<times> 'a) list \<Rightarrow> 'a list" where
  "scatter v [] = v"
| "scatter v ((i, x) # r) = scatter (v[i := x]) r"

text \<open>
  \<open>new_verts[indices] += deltas * weight\<close>: numpy reads \<open>new_verts[indices]\<close>, adds, and
  writes the sums back; it does not accumulate over a repeated index.
\<close>

definition add_at :: "vec3 list \<Rightarrow> (int \<times> vec3) list \<Rightarrow> real \<Rightarrow> error + vec3 list" where
  "add_at verts d weight =
     (case norm_indices (length verts) d of
        None \<Rightarrow> Inl IndexError
      | Some js \<Rightarrow> Inr (scatter verts (map (\<lambda>(j, delta). (j, verts ! j + smul weight delta)) js)))"

text \<open>
  The factor of one tag: \<open>factors.get('universal', 1.0)\<close> for a tag that is \<open>True\<close>,
  \<open>factors.get(tag_val, 0.0)\<close> otherwise.
\<close>

definition tag_factor :: "factors \<Rightarrow> tag \<Rightarrow> real" where
  "tag_factor f tv =
     (case tv of
        TagTrue \<Rightarrow> (case f ''universal'' of None \<Rightarrow> 1 | Some v \<Rightarrow> v)
      | TagVal s \<Rightarrow> (case f s of None \<Rightarrow> 0 | Some v \<Rightarrow> v))"

text \<open>
  The inner loop of \<open>solve_mesh\<close> over a target's tags: the running product, and
  \<open>None\<close> as soon as it is below 0.001 (\<open>relevant = False; break\<close>).
\<close>

fun target_weight :: "factors \<Rightarrow> (string \<times> tag) list \<Rightarrow> real \<Rightarrow> real option" where
  "target_weight f [] weight = Some weight"
| "target_weight f ((cat, tag_val) # r) weight =
     (let weight = weight * tag_factor f tag_val
      in if weight < 0.001 then None else target_weight f r weight)"

text \<open>The outer loop over the targets, and \<open>HumanSolver.solve_mesh\<close>.\<close>

fun solve_loop :: "factors \<Rightarrow> vec3 list \<Rightarrow> target list \<Rightarrow> error + vec3 list" where
  "solve_loop f new_verts [] = Inr new_verts"
| "solve_loop f new_verts (t # ts) =
     (case target_weight f (tags t) 1 of
        None \<Rightarrow> solve_loop f new_verts ts
      | Some weight \<Rightarrow>
          (case data t of
             None \<Rightarrow> solve_loop f new_verts ts
           | Some d \<Rightarrow>
               (case add_at new_verts d weight of
                  Inl e \<Rightarrow> Inl e
                | Inr v \<Rightarrow> solve_loop f v ts)))"

definition solve_mesh :: "vec3 list \<Rightarrow> target list \<Rightarrow> factors \<Rightarrow> error + vec3 list" where
  "solve_mesh base_vertices targets f = solve_loop f base_vertices targets"

text \<open>
  The blending as the specification words it, without the early skip: every target is
  applied with the full product of its tags' factors.
\<close>

definition full_weight :: "factors \<Rightarrow> target \<Rightarrow> real" where
  "full_weight f t = prod_list (map (\<lambda>(cat, tv). tag_factor f tv) (tags t))"

fun apply_all_targets :: "factors \<Rightarrow> vec3 list \<Rightarrow> target list \<Rightarrow> error + vec3 list" where
  "apply_all_targets f new_verts [] = Inr new_verts"
| "apply_all_targets f new_verts (t # ts) =
     (case data t of
        None \<Rightarrow> apply_all_targets f new_verts ts
      | Some d \<Rightarrow>
          (case add_at new_verts d (full_weight f t) of
             Inl e \<Rightarrow> Inl e
           | Inr v \<Rightarrow> apply_all_targets f v ts))"

definition apply_targets_spec :: "vec3 list \<Rightarrow> target list \<Rightarrow> factors \<Rightarrow> error + vec3 list" where
  "apply_targets_spec base_vertices targets f = apply_all_targets f base_vertices targets"





section \<open>Vertex-bone weights\<close>

text \<open>
  A weights dictionary maps a bone name to its vertex indices and their weights.  It is an
  \<open>OrderedDict\<close>, so an association list in insertion order: \<open>map_of\<close> reads a key and
  \<open>AList.update\<close> assigns one, in place when the key is there and at the end otherwise.
  The index array and the weight array of an entry are built in the same step and have the
  same length, so an entry is one list of (vertex index, weight) pairs.  The raw form read
  from a weights file has the same shape: per bone a list of \<open>[vertexIndex, weight]\<close>
  items, with vertex indices natural numbers.
\<close>

type_synonym weights_data = "(string \<times> (nat \<times> real) list) list"

definition WEIGHT_THRESHOLD :: real where
  "WEIGHT_THRESHOLD = 1 / 10000"

text \<open>
  \<open>vcount\<close>: the given vertex count, or one more than the largest index of the raw data.
\<close>

definition vertex_count :: "weights_data \<Rightarrow> nat option \<Rightarrow> nat" where
  "vertex_count vertexWeightsDict vertexCount =
     (case vertexCount of
        Some n \<Rightarrow> n
      | None \<Rightarrow>
          (let vals = concat (map (\<lambda>(bname, vgroup). map fst vgroup) vertexWeightsDict)
           in if vals = [] then 0 else Max (set vals) + 1))"

text \<open>
  \<open>wtot[vn] += w\<close> over every item of every group; an index beyond the array raises
  IndexError.
\<close>

fun add_totals :: "real list \<Rightarrow> (nat \<times> real) list \<Rightarrow> error + real list" where
  "add_totals wtot [] = Inr wtot"
| "add_totals wtot ((vn, w) # r) =
     (if vn < length wtot then add_totals (wtot[vn := wtot ! vn + w]) r else Inl IndexError)"

definition total_weights :: "weights_data \<Rightarrow> nat \<Rightarrow> error + real list" where
  "total_weights vertexWeightsDict vcount =
     add_totals (replicate vcount 0) (concat (map snd vertexWeightsDict))"

text \<open>
  \<open>w / wtot[vn]\<close> divides by a numpy float, which does not raise on a zero divisor.  The
  raw weights are non-negative (the data model's invariant), so a zero total means that the
  weight is zero too and the quotient is NaN: \<open>None\<close> here.  NaN stays NaN under addition
  and fails the comparison with the threshold.
\<close>

definition fdiv :: "real \<Rightarrow> real \<Rightarrow> real option" where
  "fdiv w t = (if t = 0 then None else Some (w / t))"

definition fadd :: "real option \<Rightarrow> real option \<Rightarrow> real option" where
  "fadd a b = (case (a, b) of (Some x, Some y) \<Rightarrow> Some (x + y) | _ \<Rightarrow> None)"

definition above_threshold :: "nat \<times> real option \<Rightarrow> bool" where
  "above_threshold p = (case snd p of None \<Rightarrow> False | Some x \<Rightarrow> x > WEIGHT_THRESHOLD)"

text \<open>
  The loop over one group: a vertex seen before (\<open>v_lookup\<close>) has the quotient added to
  its weight, a new one is appended.
\<close>

definition normalized_group :: "real list \<Rightarrow> (nat \<times> real) list \<Rightarrow> (nat \<times> real option) list" where
  "normalized_group wtot vgroup =
     foldl (\<lambda>acc (vn, w). AList.map_default vn (fdiv w (wtot ! vn))
                              (\<lambda>x. fadd x (fdiv w (wtot ! vn))) acc) [] vgroup"

text \<open>The entry of one bone: sorted by vertex index, then cut at the threshold.\<close>

definition bone_entry :: "real list \<Rightarrow> (nat \<times> real) list \<Rightarrow> (nat \<times> real) list" where
  "bone_entry wtot vgroup =
     map (\<lambda>(v, q). (v, the q)) (filter above_threshold (sort_key fst (normalized_group wtot vgroup)))"

fun build_bones :: "real list \<Rightarrow> weights_data \<Rightarrow> weights_data \<Rightarrow> weights_data" where
  "build_bones wtot [] boneWeights = boneWeights"
| "build_bones wtot ((bname, vgroup) # r) boneWeights =
     (if vgroup = [] then build_bones wtot r boneWeights
      else build_bones wtot r (AList.update bname (bone_entry wtot vgroup) boneWeights))"

text \<open>Every vertex with total weight zero goes to the root bone with weight 1.\<close>

definition add_root :: "real list \<Rightarrow> string \<Rightarrow> weights_data \<Rightarrow> weights_data" where
  "add_root wtot rootBone boneWeights =
     (let vs = (case map_of boneWeights rootBone of None \<Rightarrow> [] | Some e \<Rightarrow> e);
          rw_i = filter (\<lambda>i. wtot ! i = 0) [0..<length wtot];
          vs = (if rw_i \<noteq> [] then vs @ map (\<lambda>i. (i, 1)) rw_i else vs)
      in if vs \<noteq> [] then AList.update rootBone vs boneWeights else boneWeights)"

text \<open>
  \<open>VertexBoneWeights._build_vertex_weights_data\<close> on raw data: the vertex count and the
  dictionary it returns.  The method first returns a dictionary unchanged when its first
  entry is a tuple of length 2, the internal format; the entries of raw data are lists, so
  that branch is not taken.
\<close>

definition build_vertex_weights_data ::
  "weights_data \<Rightarrow> nat option \<Rightarrow> string \<Rightarrow> error + (nat \<times> weights_data)" where
  "build_vertex_weights_data vertexWeightsDict vertexCount rootBone =
     (let vcount = vertex_count vertexWeightsDict vertexCount
      in case total_weights vertexWeightsDict vcount of
           Inl e \<Rightarrow> Inl e
         | Inr wtot \<Rightarrow> Inr (vcount, add_root wtot rootBone (build_bones wtot vertexWeightsDict [])))"

text \<open>
  The weight that an entry gives to vertex v, the weight of v summed over all bones of a
  dictionary, and the entry of a bone (empty when the bone has none).
\<close>

definition weight_at :: "(nat \<times> real) list \<Rightarrow> nat \<Rightarrow> real" where
  "weight_at e v = sum_list (map snd (filter (\<lambda>p. fst p = v) e))"

definition total_weight_at :: "weights_data \<Rightarrow> nat \<Rightarrow> real" where
  "total_weight_at d v = sum_list (map (\<lambda>(bname, e). weight_at e v) d)"

definition entry_of :: "weights_data \<Rightarrow> string \<Rightarrow> (nat \<times> real) list" where
  "entry_of d bname = (case map_of d bname of None \<Rightarrow> [] | Some e \<Rightarrow> e)"


section \<open>Weight retargeting\<close>

text \<open>
  What \<open>Skeleton._retarget_weights\<close> reads of a bone: its name and its two reference lists.
  \<open>Bone.__init__\<close> stores \<open>reference_bones\<close> as a list (empty when none is declared) and
  \<open>_weight_reference_bones\<close> as a list or \<open>None\<close>.
\<close>

record bone_decl =
  name :: string
  reference_bones :: "string list"
  weight_reference_bones :: "string list option"

text \<open>
  \<open>refs = bone._weight_reference_bones\<close>, replaced by \<open>bone.reference_bones\<close> when it is
  empty or \<open>None\<close> and the latter is not empty.  An empty result is the falsy \<open>refs\<close>.
\<close>

definition bone_refs :: "'a bone_decl_scheme \<Rightarrow> string list" where
  "bone_refs b =
     (let refs = (case weight_reference_bones b of None \<Rightarrow> [] | Some r \<Rightarrow> r)
      in if refs = [] \<and> reference_bones b \<noteq> [] then reference_bones b else refs)"

text \<open>
  \<open>combined[v] += ws[i]\<close> over one entry, with \<open>combined[v] = 0.0\<close> first for a new
  vertex; the dictionary keeps insertion order.
\<close>

definition add_weights :: "(nat \<times> real) list \<Rightarrow> (nat \<times> real) list \<Rightarrow> (nat \<times> real) list" where
  "add_weights combined e =
     foldl (\<lambda>c (v, w). AList.map_default v (0 + w) (\<lambda>x. x + w) c) combined e"

definition collect_refs :: "weights_data \<Rightarrow> string list \<Rightarrow> (nat \<times> real) list" where
  "collect_refs d refs =
     foldl (\<lambda>c ref_name. case map_of d ref_name of None \<Rightarrow> c | Some e \<Rightarrow> add_weights c e) [] refs"

text \<open>
  The loop over \<open>boneslist\<close>: the new dictionary and the flag \<open>has_retargeting\<close>.
\<close>

fun retarget_bones ::
  "'a bone_decl_scheme list \<Rightarrow> weights_data \<Rightarrow> weights_data \<Rightarrow> bool \<Rightarrow> weights_data \<times> bool" where
  "retarget_bones [] d new_weights_data has_retargeting = (new_weights_data, has_retargeting)"
| "retarget_bones (b # bs) d new_weights_data has_retargeting =
     (let refs = bone_refs b in
      if refs \<noteq> [] then
        (let combined_verts = collect_refs d refs
         in retarget_bones bs d
              (if combined_verts \<noteq> []
               then AList.update (name b) (sort_key fst combined_verts) new_weights_data
               else new_weights_data) True)
      else
        (case map_of d (name b) of
           Some e \<Rightarrow> retarget_bones bs d (AList.update (name b) e new_weights_data) has_retargeting
         | None \<Rightarrow> retarget_bones bs d new_weights_data has_retargeting))"

text \<open>The supplementary table that maps helper bones to the bone that absorbs them.\<close>

definition extra_mapping :: "(string \<times> string list) list" where
  "extra_mapping =
     [(''clavicle_l'', [''scapula.L'', ''trapezius.L'']),
      (''clavicle_r'', [''scapula.R'', ''trapezius.R'']),
      (''upperarm_l'', [''deltoid.L'']),
      (''upperarm_r'', [''deltoid.R'']),
      (''spine_03'', [''latissimus.L'', ''latissimus.R'', ''pectoralis.L'', ''pectoralis.R'']),
      (''pelvis'', [''gluteus.L'', ''gluteus.R'']),
      (''head'', [''jaw'', ''eye.L'', ''eye.R'', ''tongue01'', ''tongue02'', ''tongue03'',
                  ''tongue04'', ''upperlid.L'', ''upperlid.R'', ''lowerlid.L'', ''lowerlid.R''])]"

text \<open>\<open>dict(zip(t_vs, t_ws))\<close>: a later pair overwrites an earlier one with the same key.\<close>

definition dict_of_pairs :: "(nat \<times> real) list \<Rightarrow> (nat \<times> real) list" where
  "dict_of_pairs ps = foldl (\<lambda>c (k, x). AList.update k x c) [] ps"

text \<open>The loop over the sources of one table row: the merged weights and the flag \<open>added\<close>.\<close>

definition merge_sources ::
  "weights_data \<Rightarrow> (nat \<times> real) list \<Rightarrow> string list \<Rightarrow> (nat \<times> real) list \<times> bool" where
  "merge_sources d combined sources =
     foldl (\<lambda>(c, added) src.
              case map_of d src of None \<Rightarrow> (c, added) | Some e \<Rightarrow> (add_weights c e, True))
           (combined, False) sources"

definition cleanup_row :: "weights_data \<Rightarrow> weights_data \<Rightarrow> string \<times> string list \<Rightarrow> weights_data" where
  "cleanup_row d new_weights_data row =
     (case row of (target_bone, sources) \<Rightarrow>
        (case map_of d target_bone of
           None \<Rightarrow> new_weights_data
         | Some _ \<Rightarrow>
             (let t = (case map_of new_weights_data target_bone of None \<Rightarrow> [] | Some e \<Rightarrow> e);
                  (combined, added) = merge_sources d (dict_of_pairs t) sources
              in if added then AList.update target_bone (sort_key fst combined) new_weights_data
                 else new_weights_data)))"

text \<open>
  \<open>Skeleton._retarget_weights\<close>: the dictionary that \<open>vertexWeights\<close> holds afterwards.
  Without any bone that has references the old dictionary stays.
\<close>

definition retarget_weights :: "'a bone_decl_scheme list \<Rightarrow> weights_data \<Rightarrow> weights_data" where
  "retarget_weights boneslist d =
     (case retarget_bones boneslist d [] False of
        (new_weights_data, has_retargeting) \<Rightarrow>
          if has_retargeting then foldl (cleanup_row d) new_weights_data extra_mapping
          else d)"

text \<open>
  A bone absorbs helper weights when it is a target of the supplementary table, is a key
  of the source weights, and one of its helper bones is a key of the source weights.
\<close>

definition absorbs_helpers :: "weights_data \<Rightarrow> string \<Rightarrow> bool" where
  "absorbs_helpers d bname =
     (map_of d bname \<noteq> None \<and>
      list_ex (\<lambda>(target_bone, sources). target_bone = bname \<and> list_ex (\<lambda>src. map_of d src \<noteq> None) sources)
        extra_mapping)"

text \<open>
  The helper bones that the supplementary table lists for a bone, and the weight that they
  bring to a vertex of it: the weights of the listed bones in the source weights, when the
  bone itself is a key of the source weights.
\<close>

definition helper_sources :: "string \<Rightarrow> string list" where
  "helper_sources bname = (case map_of extra_mapping bname of None \<Rightarrow> [] | Some sources \<Rightarrow> sources)"

definition helper_weight :: "weights_data \<Rightarrow> string \<Rightarrow> nat \<Rightarrow> real" where
  "helper_weight d bname v =
     (if map_of d bname = None then 0
      else sum_list (map (\<lambda>src. weight_at (entry_of d src) v) (helper_sources bname)))"

section \<open>Matrices\<close>

text \<open>
  The transforms are 4x4 numpy arrays; \<open>mRC\<close> is the entry in row R and column C.
  \<open>identity\<close> is \<open>np.identity(4)\<close> and \<open>dot\<close> is \<open>np.dot\<close> on two such arrays.
\<close>

datatype mat4 = Mat4
  (m00: real) (m01: real) (m02: real) (m03: real)
  (m10: real) (m11: real) (m12: real) (m13: real)
  (m20: real) (m21: real) (m22: real) (m23: real)
  (m30: real) (m31: real) (m32: real) (m33: real)

definition identity :: mat4 where
  "identity = Mat4
     1 0 0 0
     0 1 0 0
     0 0 1 0
     0 0 0 1"

definition dot :: "mat4 \<Rightarrow> mat4 \<Rightarrow> mat4" where
  "dot A B = Mat4
     (m00 A * m00 B + m01 A * m10 B + m02 A * m20 B + m03 A * m30 B)
     (m00 A * m01 B + m01 A * m11 B + m02 A * m21 B + m03 A * m31 B)
     (m00 A * m02 B + m01 A * m12 B + m02 A * m22 B + m03 A * m32 B)
     (m00 A * m03 B + m01 A * m13 B + m02 A * m23 B + m03 A * m33 B)
     (m10 A * m00 B + m11 A * m10 B + m12 A * m20 B + m13 A * m30 B)
     (m10 A * m01 B + m11 A * m11 B + m12 A * m21 B + m13 A * m31 B)
     (m10 A * m02 B + m11 A * m12 B + m12 A * m22 B + m13 A * m32 B)
     (m10 A * m03 B + m11 A * m13 B + m12 A * m23 B + m13 A * m33 B)
     (m20 A * m00 B + m21 A * m10 B + m22 A * m20 B + m23 A * m30 B)
     (m20 A * m01 B + m21 A * m11 B + m22 A * m21 B + m23 A * m31 B)
     (m20 A * m02 B + m21 A * m12 B + m22 A * m22 B + m23 A * m32 B)
     (m20 A * m03 B + m21 A * m13 B + m22 A * m23 B + m23 A * m33 B)
     (m30 A * m00 B + m31 A * m10 B + m32 A * m20 B + m33 A * m30 B)
     (m30 A * m01 B + m31 A * m11 B + m32 A * m21 B + m33 A * m31 B)
     (m30 A * m02 B + m31 A * m12 B + m32 A * m22 B + m33 A * m32 B)
     (m30 A * m03 B + m31 A * m13 B + m32 A * m23 B + m33 A * m33 B)"

text \<open>A homogeneous 4-vector, \<open>np.dot\<close> of a matrix and a vector, and its first three rows.\<close>

datatype vec4 = Vec4 (v0: real) (v1: real) (v2: real) (v3: real)

definition dot_vec :: "mat4 \<Rightarrow> vec4 \<Rightarrow> vec4" where
  "dot_vec M v = Vec4
     (m00 M * v0 v + m01 M * v1 v + m02 M * v2 v + m03 M * v3 v)
     (m10 M * v0 v + m11 M * v1 v + m12 M * v2 v + m13 M * v3 v)
     (m20 M * v0 v + m21 M * v1 v + m22 M * v2 v + m23 M * v3 v)
     (m30 M * v0 v + m31 M * v1 v + m32 M * v2 v + m33 M * v3 v)"

definition xyz :: "vec4 \<Rightarrow> vec3" where
  "xyz v = Vec3 (v0 v) (v1 v) (v2 v)"

definition hom :: "vec3 \<Rightarrow> real \<Rightarrow> vec4" where
  "hom p w = Vec4 (vx p) (vy p) (vz p) w"

text \<open>
  \<open>numpy.linalg.inv\<close> raises LinAlgError on a singular matrix and returns the inverse
  otherwise.  Over the reals a matrix is singular exactly when its determinant is zero, and
  the inverse is the adjugate divided by the determinant.
\<close>

definition smat :: "real \<Rightarrow> mat4 \<Rightarrow> mat4" where
  "smat c M = Mat4
     (c * m00 M) (c * m01 M) (c * m02 M) (c * m03 M)
     (c * m10 M) (c * m11 M) (c * m12 M) (c * m13 M)
     (c * m20 M) (c * m21 M) (c * m22 M) (c * m23 M)
     (c * m30 M) (c * m31 M) (c * m32 M) (c * m33 M)"

definition det3 :: "real \<Rightarrow> real \<Rightarrow> real \<Rightarrow> real \<Rightarrow> real \<Rightarrow> real \<Rightarrow> real \<Rightarrow> real \<Rightarrow> real \<Rightarrow> real" where
  "det3 a b c d e f g h i = a * (e * i - f * h) - b * (d * i - f * g) + c * (d * h - e * g)"

definition det4 :: "mat4 \<Rightarrow> real" where
  "det4 M =
       m00 M * (det3 (m11 M) (m12 M) (m13 M) (m21 M) (m22 M) (m23 M) (m31 M) (m32 M) (m33 M))
     - m01 M * (det3 (m10 M) (m12 M) (m13 M) (m20 M) (m22 M) (m23 M) (m30 M) (m32 M) (m33 M))
     + m02 M * (det3 (m10 M) (m11 M) (m13 M) (m20 M) (m21 M) (m23 M) (m30 M) (m31 M) (m33 M))
     - m03 M * (det3 (m10 M) (m11 M) (m12 M) (m20 M) (m21 M) (m22 M) (m30 M) (m31 M) (m32 M))"

definition adj4 :: "mat4 \<Rightarrow> mat4" where
  "adj4 M = Mat4
     (det3 (m11 M) (m12 M) (m13 M) (m21 M) (m22 M) (m23 M) (m31 M) (m32 M) (m33 M))
     (- det3 (m01 M) (m02 M) (m03 M) (m21 M) (m22 M) (m23 M) (m31 M) (m32 M) (m33 M))
     (det3 (m01 M) (m02 M) (m03 M) (m11 M) (m12 M) (m13 M) (m31 M) (m32 M) (m33 M))
     (- det3 (m01 M) (m02 M) (m03 M) (m11 M) (m12 M) (m13 M) (m21 M) (m22 M) (m23 M))
     (- det3 (m10 M) (m12 M) (m13 M) (m20 M) (m22 M) (m23 M) (m30 M) (m32 M) (m33 M))
     (det3 (m00 M) (m02 M) (m03 M) (m20 M) (m22 M) (m23 M) (m30 M) (m32 M) (m33 M))
     (- det3 (m00 M) (m02 M) (m03 M) (m10 M) (m12 M) (m13 M) (m30 M) (m32 M) (m33 M))
     (det3 (m00 M) (m02 M) (m03 M) (m10 M) (m12 M) (m13 M) (m20 M) (m22 M) (m23 M))
     (det3 (m10 M) (m11 M) (m13 M) (m20 M) (m21 M) (m23 M) (m30 M) (m31 M) (m33 M))
     (- det3 (m00 M) (m01 M) (m03 M) (m20 M) (m21 M) (m23 M) (m30 M) (m31 M) (m33 M))
     (det3 (m00 M) (m01 M) (m03 M) (m10 M) (m11 M) (m13 M) (m30 M) (m31 M) (m33 M))
     (- det3 (m00 M) (m01 M) (m03 M) (m10 M) (m11 M) (m13 M) (m20 M) (m21 M) (m23 M))
     (- det3 (m10 M) (m11 M) (m12 M) (m20 M) (m21 M) (m22 M) (m30 M) (m31 M) (m32 M))
     (det3 (m00 M) (m01 M) (m02 M) (m20 M) (m21 M) (m22 M) (m30 M) (m31 M) (m32 M))
     (- det3 (m00 M) (m01 M) (m02 M) (m10 M) (m11 M) (m12 M) (m30 M) (m31 M) (m32 M))
     (det3 (m00 M) (m01 M) (m02 M) (m10 M) (m11 M) (m12 M) (m20 M) (m21 M) (m22 M))"

definition la_inv :: "mat4 \<Rightarrow> error + mat4" where
  "la_inv M = (if det4 M = 0 then Inl LinAlgError else Inr (smat (1 / det4 M) (adj4 M)))"

section \<open>Bones and pose propagation\<close>

text \<open>
  A \<open>Bone\<close> of a built skeleton.  \<open>parent\<close> is a reference to another bone of the same
  skeleton: here the position of that bone in \<open>Skeleton.boneslist\<close>.  A bone is linked to
  its parent when it is constructed, and the parent must be in the skeleton by then, so a
  parent stands before its children in \<open>boneslist\<close>.  The matrices are set by
  \<open>Bone.build\<close>; in a skeleton that was never built they are \<open>None\<close>, a state that is
  not modelled.
\<close>

record bone = bone_decl +
  parent :: "nat option"
  headPos :: vec3
  tailPos :: vec3
  matRestGlobal :: mat4
  matRestRelative :: mat4
  matPose :: mat4
  matPoseGlobal :: mat4
  matPoseVerts :: mat4

text \<open>
  \<open>Bone.update\<close>, given the parent's \<open>matPoseGlobal\<close> when the bone has a parent.  The
  \<open>except\<close> clause catches LinAlgError only; any other exception would leave the method.
  \<open>la.inv\<close> is the first argument: numpy inverts in floating point, returns a matrix
  that is the inverse only up to rounding, and raises LinAlgError only when its
  factorisation meets a pivot that is exactly zero, which rounding can hide for a singular
  matrix.
\<close>

definition Bone_update_with :: "(mat4 \<Rightarrow> error + mat4) \<Rightarrow> mat4 option \<Rightarrow> bone \<Rightarrow> error + bone" where
  "Bone_update_with linalg_inv parent_matPoseGlobal b =
     (let b = b\<lparr>matPoseGlobal :=
                 (case parent_matPoseGlobal of
                    Some g \<Rightarrow> dot g (dot (matRestRelative b) (matPose b))
                  | None \<Rightarrow> dot (matRestRelative b) (matPose b))\<rparr>
      in case linalg_inv (matRestGlobal b) of
           Inr invRest \<Rightarrow> Inr (b\<lparr>matPoseVerts := dot (matPoseGlobal b) invRest\<rparr>)
         | Inl LinAlgError \<Rightarrow> Inr (b\<lparr>matPoseVerts := identity\<rparr>)
         | Inl e \<Rightarrow> Inl e)"

text \<open>
  \<open>Bone.update\<close> with the exact inverse for \<open>la.inv\<close>: the matrix arithmetic of the
  pose propagation over the reals.
\<close>

definition Bone_update :: "mat4 option \<Rightarrow> bone \<Rightarrow> error + bone" where
  "Bone_update parent_matPoseGlobal b = Bone_update_with la_inv parent_matPoseGlobal b"

text \<open>
  The bone that \<open>Bone.update\<close> leaves: it always returns, since \<open>la.inv\<close> raises
  nothing but LinAlgError.
\<close>

definition updated :: "mat4 option \<Rightarrow> bone \<Rightarrow> bone" where
  "updated parent_matPoseGlobal b =
     (let g = (case parent_matPoseGlobal of
                 Some pg \<Rightarrow> dot pg (dot (matRestRelative b) (matPose b))
               | None \<Rightarrow> dot (matRestRelative b) (matPose b))
      in b\<lparr>matPoseGlobal := g,
           matPoseVerts := (case la_inv (matRestGlobal b) of
                              Inr invRest \<Rightarrow> dot g invRest
                            | Inl e \<Rightarrow> identity)\<rparr>)"

text \<open>\<open>b.update()\<close> for the bone at position i of the skeleton's list.\<close>

definition update_bone :: "bone list \<Rightarrow> nat \<Rightarrow> error + bone list" where
  "update_bone bs i =
     (case Bone_update (map_option (\<lambda>p. matPoseGlobal (bs ! p)) (parent (bs ! i))) (bs ! i) of
        Inl e \<Rightarrow> Inl e
      | Inr b \<Rightarrow> Inr (bs[i := b]))"

text \<open>\<open>for b in skeleton.getBones(): b.update()\<close>, over the given positions in order.\<close>

fun update_bones :: "bone list \<Rightarrow> nat list \<Rightarrow> error + bone list" where
  "update_bones bs [] = Inr bs"
| "update_bones bs (i # r) =
     (case update_bone bs i of Inl e \<Rightarrow> Inl e | Inr bs' \<Rightarrow> update_bones bs' r)"

definition update_all :: "bone list \<Rightarrow> error + bone list" where
  "update_all bs = update_bones bs [0..<length bs]"

text \<open>\<open>matrix.translate\<close>, as the test suite's stand-in defines it.\<close>

definition translate :: "vec3 \<Rightarrow> mat4" where
  "translate t = Mat4
     1 0 0 (vx t)
     0 1 0 (vy t)
     0 0 1 (vz t)
     0 0 0 1"

text \<open>A bone as \<open>Bone.__init__\<close> and \<open>Bone.build\<close> leave it, for a given rest matrix.\<close>

definition rest_bone :: "string \<Rightarrow> nat option \<Rightarrow> mat4 \<Rightarrow> mat4 \<Rightarrow> bone" where
  "rest_bone n p rest_global rest_relative =
     \<lparr>name = n, reference_bones = [], weight_reference_bones = None, parent = p,
      headPos = Vec3 (m03 rest_global) (m13 rest_global) (m23 rest_global),
      tailPos = Vec3 (m03 rest_global) (m13 rest_global + 1) (m23 rest_global),
      matRestGlobal = rest_global, matRestRelative = rest_relative,
      matPose = identity, matPoseGlobal = rest_global, matPoseVerts = identity\<rparr>"

section \<open>Linear blend skinning\<close>

text \<open>
  \<open>bone_matrices = {b.name: b.matPoseVerts for b in skel.getBones()}\<close>; the same
  lookup by name is \<open>skel.getBone(bname).matPoseVerts\<close>.
\<close>

definition bone_matrices :: "bone list \<Rightarrow> string \<rightharpoonup> mat4" where
  "bone_matrices bs = foldl (\<lambda>m b. m(name b \<mapsto> matPoseVerts b)) Map.empty bs"

text \<open>
  The rest position of vertex i under the skinning matrix, weighted:
  \<open>np.dot(verts_hom[indices], mat.T)[:, :3] * w_col\<close>, row by row.
\<close>

definition weighted_transform :: "mat4 \<Rightarrow> vec3 \<Rightarrow> real \<Rightarrow> vec3" where
  "weighted_transform mat v w = smul w (xyz (dot_vec mat (hom v 1)))"

text \<open>\<open>np.add.at(total_weight, indices, w_col)\<close> accumulates over a repeated index.\<close>

definition add_at_weights :: "real list \<Rightarrow> (nat \<times> real) list \<Rightarrow> real list" where
  "add_at_weights total_weight e = foldl (\<lambda>t (i, w). t[i := t ! i + w]) total_weight e"

text \<open>
  The skinning loop of \<open>vnccs_character_studio_update_preview\<close> over the weights
  dictionary, on the pair of accumulators \<open>deformed_verts\<close> and \<open>total_weight\<close>.
  Reading \<open>verts_hom[indices]\<close> raises IndexError for an index beyond the mesh, before
  anything is written.
\<close>

fun skin_loop ::
  "(string \<rightharpoonup> mat4) \<Rightarrow> vec3 list \<Rightarrow> weights_data \<Rightarrow> vec3 list \<times> real list
     \<Rightarrow> error + (vec3 list \<times> real list)" where
  "skin_loop bm new_verts [] acc = Inr acc"
| "skin_loop bm new_verts ((b_name, e) # r) (deformed_verts, total_weight) =
     (case bm b_name of
        None \<Rightarrow> skin_loop bm new_verts r (deformed_verts, total_weight)
      | Some mat \<Rightarrow>
          if list_all (\<lambda>(i, w). i < length new_verts) e then
            skin_loop bm new_verts r
              (scatter deformed_verts
                 (map (\<lambda>(i, w). (i, deformed_verts ! i + weighted_transform mat (new_verts ! i) w)) e),
               add_at_weights total_weight e)
          else Inl IndexError)"

text \<open>
  The shared skinning block: the accumulation, then every vertex whose total weight is
  below 0.01 is put back at its rest position.  The block catches every exception and then
  leaves \<open>new_verts\<close> as it was.
\<close>

definition skin :: "vec3 list \<Rightarrow> bone list \<Rightarrow> weights_data \<Rightarrow> vec3 list" where
  "skin new_verts bs weights_data =
     (case skin_loop (bone_matrices bs) new_verts weights_data
             (replicate (length new_verts) 0, replicate (length new_verts) 0) of
        Inl e \<Rightarrow> new_verts
      | Inr (deformed_verts, total_weight) \<Rightarrow>
          map (\<lambda>i. if total_weight ! i < 0.01 then new_verts ! i else deformed_verts ! i)
            [0..<length new_verts])"

text \<open>
  The accumulated total weight of vertex i: its weights in the entries of the bones that
  the skeleton has.
\<close>

definition skinned_weight :: "bone list \<Rightarrow> weights_data \<Rightarrow> nat \<Rightarrow> real" where
  "skinned_weight bs weights_data i =
     total_weight_at (filter (\<lambda>(b_name, e). bone_matrices bs b_name \<noteq> None) weights_data) i"

text \<open>
  Step 6 of \<open>PoseStudio._apply_pose\<close>: the same accumulation into \<open>skinned_verts\<close>,
  without a total weight and without the step that puts a vertex back.  A bone that the
  skeleton does not have and an empty entry are passed over; without a weights object the
  vertices are copied.
\<close>

fun lbs_loop :: "(string \<rightharpoonup> mat4) \<Rightarrow> vec3 list \<Rightarrow> weights_data \<Rightarrow> vec3 list \<Rightarrow> error + vec3 list" where
  "lbs_loop bm verts [] skinned_verts = Inr skinned_verts"
| "lbs_loop bm verts ((bname, e) # r) skinned_verts =
     (case bm bname of
        None \<Rightarrow> lbs_loop bm verts r skinned_verts
      | Some mat_skin \<Rightarrow>
          if e = [] then lbs_loop bm verts r skinned_verts
          else if list_all (\<lambda>(i, w). i < length verts) e then
            lbs_loop bm verts r
              (scatter skinned_verts
                 (map (\<lambda>(i, w). (i, skinned_verts ! i + weighted_transform mat_skin (verts ! i) w)) e))
          else Inl IndexError)"

definition pose_studio_lbs :: "vec3 list \<Rightarrow> bone list \<Rightarrow> weights_data option \<Rightarrow> error + vec3 list" where
  "pose_studio_lbs verts bs vertexWeights =
     (case vertexWeights of
        None \<Rightarrow> Inr verts
      | Some weights_data \<Rightarrow>
          lbs_loop (bone_matrices bs) verts weights_data (replicate (length verts) 0))"

text \<open>
  The rest matrices as \<open>Bone.build\<close> leaves them: a root's rest-relative matrix is its
  rest-global matrix, and a child's is inverse(parent rest-global) . rest-global, the
  parent standing before the child (\<open>build\<close> raises when the parent's matrix is singular).
\<close>

definition rest_consistent_at :: "bone list \<Rightarrow> nat \<Rightarrow> bool" where
  "rest_consistent_at bs j =
     (case parent (bs ! j) of
        None \<Rightarrow> matRestRelative (bs ! j) = matRestGlobal (bs ! j)
      | Some p \<Rightarrow>
          p < j \<and>
          (case la_inv (matRestGlobal (bs ! p)) of
             Inl e \<Rightarrow> False
           | Inr inv_parent \<Rightarrow> matRestRelative (bs ! j) = dot inv_parent (matRestGlobal (bs ! j))))"

definition rest_consistent :: "bone list \<Rightarrow> bool" where
  "rest_consistent bs = list_all (rest_consistent_at bs) [0..<length bs]"

text \<open>What a pass of updates leaves alone: everything but the two derived matrices.\<close>

definition same_rest :: "bone \<Rightarrow> bone \<Rightarrow> bool" where
  "same_rest a b =
     (name a = name b \<and> parent a = parent b \<and> headPos a = headPos b \<and> tailPos a = tailPos b
      \<and> reference_bones a = reference_bones b \<and> weight_reference_bones a = weight_reference_bones b
      \<and> matRestGlobal a = matRestGlobal b \<and> matRestRelative a = matRestRelative b)"

section \<open>The CCD step of the IK solver\<close>

text \<open>
  \<open>numpy.linalg.norm\<close> of a 3-vector, and \<open>v /= la.norm(v)\<close>.  numpy does not raise on
  a zero divisor: a zero vector divided by its norm becomes a vector of NaN, which a real
  vector cannot hold; it is \<open>None\<close> here.
\<close>

definition norm3 :: "vec3 \<Rightarrow> real" where
  "norm3 v = sqrt ((vx v)\<^sup>2 + (vy v)\<^sup>2 + (vz v)\<^sup>2)"

definition normalized :: "vec3 \<Rightarrow> vec3 option" where
  "normalized v =
     (if norm3 v = 0 then None
      else Some (Vec3 (vx v / norm3 v) (vy v / norm3 v) (vz v / norm3 v)))"

text \<open>The slices \<open>M[:3, j]\<close> of a matrix, and the assignment to one of them.\<close>

definition col0 :: "mat4 \<Rightarrow> vec3" where "col0 M = Vec3 (m00 M) (m10 M) (m20 M)"
definition col1 :: "mat4 \<Rightarrow> vec3" where "col1 M = Vec3 (m01 M) (m11 M) (m21 M)"
definition col2 :: "mat4 \<Rightarrow> vec3" where "col2 M = Vec3 (m02 M) (m12 M) (m22 M)"
definition col3 :: "mat4 \<Rightarrow> vec3" where "col3 M = Vec3 (m03 M) (m13 M) (m23 M)"

definition set_col0 :: "mat4 \<Rightarrow> vec3 \<Rightarrow> mat4" where
  "set_col0 M c = Mat4
     (vx c) (m01 M) (m02 M) (m03 M)
     (vy c) (m11 M) (m12 M) (m13 M)
     (vz c) (m21 M) (m22 M) (m23 M)
     (m30 M) (m31 M) (m32 M) (m33 M)"

definition set_col1 :: "mat4 \<Rightarrow> vec3 \<Rightarrow> mat4" where
  "set_col1 M c = Mat4
     (m00 M) (vx c) (m02 M) (m03 M)
     (m10 M) (vy c) (m12 M) (m13 M)
     (m20 M) (vz c) (m22 M) (m23 M)
     (m30 M) (m31 M) (m32 M) (m33 M)"

definition set_col2 :: "mat4 \<Rightarrow> vec3 \<Rightarrow> mat4" where
  "set_col2 M c = Mat4
     (m00 M) (m01 M) (vx c) (m03 M)
     (m10 M) (m11 M) (vy c) (m13 M)
     (m20 M) (m21 M) (vz c) (m23 M)
     (m30 M) (m31 M) (m32 M) (m33 M)"

definition set_col3 :: "mat4 \<Rightarrow> vec3 \<Rightarrow> mat4" where
  "set_col3 M c = Mat4
     (m00 M) (m01 M) (m02 M) (vx c)
     (m10 M) (m11 M) (m12 M) (vy c)
     (m20 M) (m21 M) (m22 M) (vz c)
     (m30 M) (m31 M) (m32 M) (m33 M)"

definition bottom_row :: "mat4 \<Rightarrow> vec4" where
  "bottom_row M = Vec4 (m30 M) (m31 M) (m32 M) (m33 M)"

text \<open>
  The outcome of the rotation step: an exception, a pose matrix with NaN entries, or the
  bone with its new local pose matrix.
\<close>

datatype step_result = Raises error | NaN | Rotated bone

text \<open>
  The part of the per-bone body of the CCD loop in \<open>IKSolver.solve_ik\<close> that applies
  the rotation, from \<open>inv_global = la.inv(bone.matPoseGlobal)\<close> to the normalisation of
  the three basis columns, for the rotation axis and angle computed before it.
  \<open>tm.rotation_matrix\<close> is of the module \<open>transformations\<close>, which is not among the
  sources; it is the parameter \<open>rotation_matrix\<close>.
\<close>

definition ccd_apply_rotation :: "(real \<Rightarrow> vec3 \<Rightarrow> mat4) \<Rightarrow> bone \<Rightarrow> vec3 \<Rightarrow> real \<Rightarrow> step_result" where
  "ccd_apply_rotation rotation_matrix b axis angle =
     (case la_inv (matPoseGlobal b) of
        Inl e \<Rightarrow> Raises e
      | Inr inv_global \<Rightarrow>
          (case normalized (xyz (dot_vec inv_global (hom axis 0))) of
             None \<Rightarrow> NaN
           | Some local_axis \<Rightarrow>
               (let rot_local = rotation_matrix angle local_axis;
                    orig_pos = col3 (matPose b);
                    m = dot (matPose b) rot_local;
                    m = set_col3 m orig_pos
                in case normalized (col0 m) of
                     None \<Rightarrow> NaN
                   | Some c0 \<Rightarrow>
                       (case normalized (col1 m) of
                          None \<Rightarrow> NaN
                        | Some c1 \<Rightarrow>
                            (case normalized (col2 m) of
                               None \<Rightarrow> NaN
                             | Some c2 \<Rightarrow>
                                 Rotated (b\<lparr>matPose := set_col2 (set_col1 (set_col0 m c0) c1) c2\<rparr>))))))"

text \<open>
  What the step needs of \<open>tm.rotation_matrix\<close>: a homogeneous matrix, with bottom row
  (0, 0, 0, 1), whose three basis columns are not zero.
\<close>

definition rotation_like :: "mat4 \<Rightarrow> bool" where
  "rotation_like R =
     (bottom_row R = Vec4 0 0 0 1 \<and> col0 R \<noteq> 0 \<and> col1 R \<noteq> 0 \<and> col2 R \<noteq> 0)"

text \<open>
  \<open>rotation_matrix\<close> as the solver's test defines it in place of the module's function.
\<close>

definition rotation_matrix_test :: "real \<Rightarrow> vec3 \<Rightarrow> mat4" where
  "rotation_matrix_test angle axis =
     (let n = norm3 axis;
          axis = (if n > 0 then Vec3 (vx axis / n) (vy axis / n) (vz axis / n) else axis);
          a = cos (angle / 2);
          b = vx axis * sin (angle / 2);
          c = vy axis * sin (angle / 2);
          d = vz axis * sin (angle / 2)
      in Mat4
           (a * a + b * b - c * c - d * d) (2 * (b * c - a * d)) (2 * (b * d + a * c)) 0
           (2 * (b * c + a * d)) (a * a + c * c - b * b - d * d) (2 * (c * d - a * b)) 0
           (2 * (b * d - a * c)) (2 * (c * d + a * b)) (a * a + d * d - b * b - c * c) 0
           0 0 0 1)"

section \<open>Pose transfer\<close>

text \<open>
  \<open>skeleton.getBone(name)\<close> reads the dictionary \<open>Skeleton.bones\<close>, which \<open>addBone\<close>
  fills by name: of several bones with one name it holds the last one added.
\<close>

definition getBone :: "bone list \<Rightarrow> string \<Rightarrow> nat option" where
  "getBone bs n =
     (case filter (\<lambda>i. name (bs ! i) = n) [0..<length bs] of
        [] \<Rightarrow> None
      | i # r \<Rightarrow> Some (last (i # r)))"

text \<open>The fixed chain list of \<open>PoseTransfer\<close>: bone, start landmark, end landmark.\<close>

definition CHAINS :: "(string \<times> string \<times> string) list" where
  "CHAINS =
     [(''upperarm_l'', ''r_shoulder'', ''r_elbow''),
      (''lowerarm_l'', ''r_elbow'', ''r_wrist''),
      (''upperarm_r'', ''l_shoulder'', ''l_elbow''),
      (''lowerarm_r'', ''l_elbow'', ''l_wrist''),
      (''thigh_l'', ''r_hip'', ''r_knee''),
      (''calf_l'', ''r_knee'', ''r_ankle''),
      (''thigh_r'', ''l_hip'', ''l_knee''),
      (''calf_r'', ''l_knee'', ''l_ankle'')]"

text \<open>Vector difference, \<open>np.dot\<close> and \<open>np.cross\<close> of 3-vectors, \<open>np.degrees\<close>.\<close>

definition vsub :: "vec3 \<Rightarrow> vec3 \<Rightarrow> vec3" where
  "vsub a b = Vec3 (vx a - vx b) (vy a - vy b) (vz a - vz b)"

definition vdot :: "vec3 \<Rightarrow> vec3 \<Rightarrow> real" where
  "vdot a b = vx a * vx b + vy a * vy b + vz a * vz b"

definition cross :: "vec3 \<Rightarrow> vec3 \<Rightarrow> vec3" where
  "cross a b = Vec3 (vy a * vz b - vz a * vy b) (vz a * vx b - vx a * vz b) (vx a * vy b - vy a * vx b)"

definition degrees :: "real \<Rightarrow> real" where
  "degrees x = x * 180 / pi"

text \<open>
  The functions of the module \<open>matrix\<close> that \<open>apply_pose\<close> calls.  The module is not among
  the sources, so they are parameters: \<open>normalize\<close>, \<open>rotx\<close> and \<open>rotate\<close>.
\<close>

record matrix_module =
  normalize :: "vec3 \<Rightarrow> vec3"
  rotx :: "real \<Rightarrow> mat4"
  rotate :: "real \<Rightarrow> vec3 \<Rightarrow> mat4"

text \<open>
  Step 0 of \<open>apply_pose\<close>: every bone in list order gets the identity as local pose
  matrix and is updated at once.
\<close>

fun reset_pose :: "bone list \<Rightarrow> nat list \<Rightarrow> error + bone list" where
  "reset_pose bs [] = Inr bs"
| "reset_pose bs (i # r) =
     (case update_bone (bs[i := (bs ! i)\<lparr>matPose := identity\<rparr>]) i of
        Inl e \<Rightarrow> Inl e
      | Inr bs' \<Rightarrow> reset_pose bs' r)"

text \<open>
  The alignment of one chain entry, for the bone at position i and the two landmarks:
  the rotation that turns the bone's rest direction onto the landmark direction, both taken
  into the bone's local space.  \<open>la.inv\<close> is not guarded here.
\<close>

definition align_bone :: "matrix_module \<Rightarrow> bone list \<Rightarrow> nat \<Rightarrow> vec3 \<Rightarrow> vec3 \<Rightarrow> error + bone list" where
  "align_bone mx bs i op_start op_end =
     (let b = bs ! i;
          v_target_user = vsub op_end op_start;
          v_target_user = Vec3 (vx v_target_user) (- vy v_target_user) (vz v_target_user);
          target_dir = normalize mx v_target_user;
          parent_mat = (case parent b of Some p \<Rightarrow> matPoseGlobal (bs ! p) | None \<Rightarrow> identity);
          pre_pose_mat = dot parent_mat (matRestRelative b);
          rest_dir_global = normalize mx (vsub (tailPos b) (headPos b))
      in case la_inv pre_pose_mat of
           Inl e \<Rightarrow> Inl e
         | Inr inv_pre_pose \<Rightarrow>
             (let local_target = normalize mx (xyz (dot_vec inv_pre_pose (hom target_dir 0)));
                  local_axis = normalize mx (xyz (dot_vec inv_pre_pose (hom rest_dir_global 0)));
                  d = vdot local_axis local_target;
                  rot_mat =
                    (if d > 0.999 then identity
                     else if d < - 0.999 then rotx mx 180
                     else rotate mx (degrees (arccos d)) (normalize mx (cross local_axis local_target)));
                  scale_mat = identity
              in update_bone (bs[i := b\<lparr>matPose := dot rot_mat scale_mat\<rparr>]) i))"

text \<open>Step 2: the loop over the chains, with the landmarks as a dictionary of points.\<close>

fun align_chains ::
  "matrix_module \<Rightarrow> (string \<rightharpoonup> vec3) \<Rightarrow> bone list \<Rightarrow> (string \<times> string \<times> string) list
     \<Rightarrow> error + bone list" where
  "align_chains mx op_dict bs [] = Inr bs"
| "align_chains mx op_dict bs ((bone_name, op_start, op_end) # r) =
     (case (op_dict op_start, op_dict op_end) of
        (Some s, Some e) \<Rightarrow>
          (case getBone bs bone_name of
             None \<Rightarrow> align_chains mx op_dict bs r
           | Some i \<Rightarrow>
               (case align_bone mx bs i s e of
                  Inl err \<Rightarrow> Inl err
                | Inr bs' \<Rightarrow> align_chains mx op_dict bs' r))
      | _ \<Rightarrow> align_chains mx op_dict bs r)"

text \<open>\<open>PoseTransfer.apply_pose\<close>: the skeleton's bones afterwards.\<close>

definition apply_pose :: "matrix_module \<Rightarrow> bone list \<Rightarrow> (string \<rightharpoonup> vec3) \<Rightarrow> error + bone list" where
  "apply_pose mx bs op_dict =
     (case reset_pose bs [0..<length bs] of
        Inl e \<Rightarrow> Inl e
      | Inr bs' \<Rightarrow> align_chains mx op_dict bs' CHAINS)"

text \<open>
  Two states of one skeleton: the same bones in the same order with the same rest
  configuration, whatever their pose matrices.  In a skeleton every parent stands before
  its children.
\<close>

definition same_skeleton :: "bone list \<Rightarrow> bone list \<Rightarrow> bool" where
  "same_skeleton bs1 bs2 =
     (length bs1 = length bs2 \<and> list_all2 same_rest bs1 bs2)"

definition parents_first :: "bone list \<Rightarrow> bool" where
  "parents_first bs =
     list_all (\<lambda>i. case parent (bs ! i) of None \<Rightarrow> True | Some p \<Rightarrow> p < i) [0..<length bs]"

text \<open>A stand-in for the module, built on the test suite's rotation matrix.\<close>

definition matrix_test :: matrix_module where
  "matrix_test =
     \<lparr>normalize = (\<lambda>v. case normalized v of None \<Rightarrow> v | Some u \<Rightarrow> u),
      rotx = (\<lambda>deg. rotation_matrix_test (deg * pi / 180) (Vec3 1 0 0)),
      rotate = (\<lambda>deg axis. rotation_matrix_test (deg * pi / 180) axis)\<rparr>"

section \<open>Shape factors: partition of unity\<close>

lemma fget_set_gender:
  "fget (set_gender g f) k =
     (if k = ''female'' then 1 - g else if k = ''male'' then g else fget f k)"
  by (simp add: set_gender_def fget_def)

lemma fget_set_age_other:
  "k \<notin> {''old'', ''baby'', ''young'', ''child''} \<Longrightarrow> fget (set_age a f) k = fget f k"
  by (simp add: set_age_def fget_def)

lemma fget_set_bipolar_other:
  "k \<noteq> hi \<Longrightarrow> k \<noteq> lo \<Longrightarrow> k \<noteq> mid \<Longrightarrow> fget (set_bipolar hi lo mid x f) k = fget f k"
  by (simp add: set_bipolar_def fget_def Let_def)

lemma fget_set_race_other:
  "k \<notin> {''african'', ''asian'', ''caucasian''} \<Longrightarrow> fget (set_race f) k = fget f k"
  by (simp add: set_race_def fget_def)

lemma fget_set_firmness_other:
  "k \<notin> {''maxfirmness'', ''minfirmness'', ''averagefirmness''} \<Longrightarrow> fget (set_firmness f) k = fget f k"
  by (simp add: set_firmness_def fget_def)

lemma fget_set_genitals_other:
  "k \<notin> {''penis-length-incr'', ''penis-length-decr'', ''penis-testicles-incr'',
         ''penis-testicles-decr'', ''penis-circ-incr'', ''penis-circ-decr''} \<Longrightarrow>
   fget (set_genitals g f) k = fget f k"
  by (simp add: set_genitals_def fget_def)

lemma fget_upd_other: "k \<noteq> k' \<Longrightarrow> fget (f(k' \<mapsto> v)) k = fget f k"
  by (simp add: fget_def)

lemmas fget_other = fget_set_age_other fget_set_bipolar_other fget_set_race_other
  fget_set_firmness_other fget_set_genitals_other fget_upd_other

lemma bipolar_triple:
  assumes "hi \<noteq> lo" "hi \<noteq> mid" "lo \<noteq> mid"
  shows "fget (set_bipolar hi lo mid x f) hi + fget (set_bipolar hi lo mid x f) lo
         + fget (set_bipolar hi lo mid x f) mid = 1"
  using assms by (simp add: set_bipolar_def fget_def)

lemma age_quadruple:
  assumes "0 \<le> a"
  shows "fget (set_age a f) ''baby'' + fget (set_age a f) ''child''
         + fget (set_age a f) ''young'' + fget (set_age a f) ''old'' = 1"
  using assms by (auto simp: set_age_def fget_def max_def min_def)

text \<open>
  Claim C1.  For sliders in [0,1] the factor table returned by \<open>calculate_factors\<close> is a
  partition of unity on each trait: max + min + average is exactly 1 for muscle, weight,
  height and cup, male + female is 1, and baby + child + young + old is 1 (hence within
  1e-6 of 1) at every age of the domain.
\<close>

theorem calculate_factors_sums:
  assumes "0 \<le> age" "age \<le> 1" "0 \<le> gender" "gender \<le> 1" "0 \<le> weight" "weight \<le> 1"
    and "0 \<le> muscle" "muscle \<le> 1" "0 \<le> height" "height \<le> 1"
    and "0 \<le> breast_size" "breast_size \<le> 1" "0 \<le> genital_size" "genital_size \<le> 1"
    and "f = calculate_factors age gender weight muscle height breast_size genital_size"
  shows "fget f ''maxmuscle'' + fget f ''minmuscle'' + fget f ''averagemuscle'' = 1
       \<and> fget f ''maxweight'' + fget f ''minweight'' + fget f ''averageweight'' = 1
       \<and> fget f ''maxheight'' + fget f ''minheight'' + fget f ''averageheight'' = 1
       \<and> fget f ''maxcup'' + fget f ''mincup'' + fget f ''averagecup'' = 1
       \<and> fget f ''male'' + fget f ''female'' = 1
       \<and> fget f ''baby'' + fget f ''child'' + fget f ''young'' + fget f ''old'' = 1
       \<and> \<bar>fget f ''baby'' + fget f ''child'' + fget f ''young'' + fget f ''old'' - 1\<bar> \<le> 1 / 10 ^ 6"
proof -
  have muscle: "fget f ''maxmuscle'' + fget f ''minmuscle'' + fget f ''averagemuscle'' = 1"
    unfolding assms(15) calculate_factors_def Let_def by (simp add: fget_other bipolar_triple)
  have weight: "fget f ''maxweight'' + fget f ''minweight'' + fget f ''averageweight'' = 1"
    unfolding assms(15) calculate_factors_def Let_def by (simp add: fget_other bipolar_triple)
  have height: "fget f ''maxheight'' + fget f ''minheight'' + fget f ''averageheight'' = 1"
    unfolding assms(15) calculate_factors_def Let_def by (simp add: fget_other bipolar_triple)
  have cup: "fget f ''maxcup'' + fget f ''mincup'' + fget f ''averagecup'' = 1"
    unfolding assms(15) calculate_factors_def Let_def by (simp add: fget_other bipolar_triple)
  have gender: "fget f ''male'' + fget f ''female'' = 1"
    unfolding assms(15) calculate_factors_def Let_def by (simp add: fget_other fget_set_gender)
  have ages: "fget f ''baby'' + fget f ''child'' + fget f ''young'' + fget f ''old'' = 1"
    unfolding assms(15) calculate_factors_def Let_def
    using assms(1) by (simp add: fget_other age_quadruple)
  from muscle weight height cup gender ages show ?thesis by simp
qed

theorem calculate_factors_sums_witness:
  "(0::real) \<le> 1/4 \<and> (1/4::real) \<le> 1 \<and> (0::real) \<le> 3/4 \<and> (3/4::real) \<le> 1
   \<and> fget (calculate_factors (1/4) (3/4) (1/4) (3/4) (1/4) (3/4) (1/4)) ''maxmuscle''
     + fget (calculate_factors (1/4) (3/4) (1/4) (3/4) (1/4) (3/4) (1/4)) ''minmuscle''
     + fget (calculate_factors (1/4) (3/4) (1/4) (3/4) (1/4) (3/4) (1/4)) ''averagemuscle'' = 1
   \<and> fget (calculate_factors (1/4) (3/4) (1/4) (3/4) (1/4) (3/4) (1/4)) ''male''
     + fget (calculate_factors (1/4) (3/4) (1/4) (3/4) (1/4) (3/4) (1/4)) ''female'' = 1
   \<and> fget (calculate_factors (1/4) (3/4) (1/4) (3/4) (1/4) (3/4) (1/4)) ''baby''
     + fget (calculate_factors (1/4) (3/4) (1/4) (3/4) (1/4) (3/4) (1/4)) ''child''
     + fget (calculate_factors (1/4) (3/4) (1/4) (3/4) (1/4) (3/4) (1/4)) ''young''
     + fget (calculate_factors (1/4) (3/4) (1/4) (3/4) (1/4) (3/4) (1/4)) ''old'' = 1"
  using calculate_factors_sums [of "1/4" "3/4" "1/4" "3/4" "1/4" "3/4" "1/4"
      "calculate_factors (1/4) (3/4) (1/4) (3/4) (1/4) (3/4) (1/4)"]
  by simp

section \<open>Blending: order independence and the early skip\<close>

lemma length_scatter [simp]: "length (scatter v ps) = length v"
  by (induction v ps rule: scatter.induct) simp_all

lemma nth_scatter:
  "i < length v \<Longrightarrow>
   scatter v ps ! i = (case map_of (rev ps) i of None \<Rightarrow> v ! i | Some x \<Rightarrow> x)"
proof (induction v ps rule: scatter.induct)
  case (1 v)
  then show ?case by simp
next
  case (2 v j x r)
  then show ?case
    by (auto simp: map_add_def nth_list_update split: option.splits)
qed

lemma smul_zero [simp]: "smul w 0 = 0"
  by (simp add: smul_def zero_vec3_def)



lemma add_at_error_iff:
  "(\<exists>e. add_at v d w = Inl e) \<longleftrightarrow> norm_indices (length v) d = None"
  by (auto simp: add_at_def split: option.splits)




lemma tag_factor_range:
  assumes "ran f \<subseteq> {0..1}"
  shows "0 \<le> tag_factor f tv \<and> tag_factor f tv \<le> 1"
proof -
  have "\<And>k v. f k = Some v \<Longrightarrow> 0 \<le> v \<and> v \<le> 1"
    using assms by (auto simp: ran_def)
  then show ?thesis
    by (auto simp: tag_factor_def split: tag.splits option.splits)
qed

lemma prod_list_unit_interval:
  assumes "\<forall>x \<in> set xs. 0 \<le> x \<and> x \<le> (1::real)"
  shows "0 \<le> prod_list xs \<and> prod_list xs \<le> 1"
  using assms by (induction xs) (auto simp: mult_le_one)

lemma target_weight_closed:
  assumes "ran f \<subseteq> {0..1}" "\<not> w < 0.001"
  shows "target_weight f tgs w =
     (if w * prod_list (map (\<lambda>(cat, tv). tag_factor f tv) tgs) < 0.001 then None
      else Some (w * prod_list (map (\<lambda>(cat, tv). tag_factor f tv) tgs)))"
  using assms(2)
proof (induction tgs arbitrary: w)
  case Nil
  then show ?case by simp
next
  case (Cons ct tgs)
  obtain cat tv where ct: "ct = (cat, tv)" by (cases ct)
  let ?x = "tag_factor f tv"
  let ?p = "prod_list (map (\<lambda>(cat, tv). tag_factor f tv) tgs)"
  have x: "0 \<le> ?x" "?x \<le> 1" using tag_factor_range [OF assms(1)] by auto
  have "\<forall>x \<in> set (map (\<lambda>(cat, tv). tag_factor f tv) tgs). 0 \<le> x \<and> x \<le> 1"
    using tag_factor_range [OF assms(1)] by auto
  then have p: "0 \<le> ?p" "?p \<le> 1"
    using prod_list_unit_interval by blast+
  have wx: "0 \<le> w * ?x" using Cons.prems x by simp
  show ?case
  proof (cases "w * ?x < 0.001")
    case True
    have "w * ?x * ?p \<le> w * ?x" using wx p by (simp add: mult_left_le)
    with True have "w * (?x * ?p) < 0.001" by (simp add: mult.assoc)
    with True show ?thesis by (simp add: ct)
  next
    case False
    then show ?thesis using Cons.IH [OF False] by (simp add: ct mult.assoc)
  qed
qed

lemma solve_loop_filter:
  assumes "ran f \<subseteq> {0..1}"
  shows "solve_loop f v ts = apply_all_targets f v (filter (\<lambda>t. \<not> full_weight f t < 0.001) ts)"
proof (induction ts arbitrary: v)
  case Nil
  show ?case by simp
next
  case (Cons t ts)
  have tw: "target_weight f (tags t) 1 =
      (if full_weight f t < 0.001 then None else Some (full_weight f t))"
    using target_weight_closed [OF assms, of 1 "tags t"] by (simp add: full_weight_def)
  show ?case
    by (simp add: tw Cons.IH split: option.splits sum.splits)
qed



text \<open>
  Claim C4, as stated, fails: with the factor of \<open>male\<close> at 0.0005 a target tagged
  \<open>male\<close> is skipped by \<open>solve_mesh\<close>, while applying it with its full product weight
  moves vertex 0 by 0.0005.
\<close>

theorem solve_mesh_skip_counterexample:
  "ran [''male'' \<mapsto> (1/2000 :: real)] \<subseteq> {0..1}
   \<and> solve_mesh [Vec3 0 0 0]
         [\<lparr>tags = [(''gender'', TagVal ''male'')], data = Some [(0, Vec3 1 0 0)]\<rparr>]
         [''male'' \<mapsto> 1/2000]
       \<noteq> apply_targets_spec [Vec3 0 0 0]
         [\<lparr>tags = [(''gender'', TagVal ''male'')], data = Some [(0, Vec3 1 0 0)]\<rparr>]
         [''male'' \<mapsto> 1/2000]"
  by (simp add: solve_mesh_def apply_targets_spec_def full_weight_def add_at_def norm_index_def
      tag_factor_def smul_def plus_vec3_def)

text \<open>
  Claim C4, amended.  For a factor table with all values in [0,1], the blending with the
  early skip equals applying, each with its full product weight, exactly the targets
  whose full tag-factor product is at least 0.001; a target whose product is below 0.001
  contributes nothing.
\<close>

theorem solve_mesh_skip_filter:
  assumes "ran f \<subseteq> {0..1}"
  shows "solve_mesh base_vertices targets f
       = apply_targets_spec base_vertices (filter (\<lambda>t. 0.001 \<le> full_weight f t) targets) f"
  unfolding solve_mesh_def apply_targets_spec_def solve_loop_filter [OF assms]
  by (simp add: not_less)

theorem solve_mesh_skip_filter_witness:
  "ran [''male'' \<mapsto> (1/2000 :: real), ''young'' \<mapsto> 1/2] \<subseteq> {0..1}
   \<and> solve_mesh [Vec3 0 0 0]
         [\<lparr>tags = [(''gender'', TagVal ''male'')], data = Some [(0, Vec3 1 0 0)]\<rparr>,
          \<lparr>tags = [(''age'', TagVal ''young'')], data = Some [(0, Vec3 0 2 0)]\<rparr>]
         [''male'' \<mapsto> 1/2000, ''young'' \<mapsto> 1/2]
       = apply_targets_spec [Vec3 0 0 0]
         [\<lparr>tags = [(''age'', TagVal ''young'')], data = Some [(0, Vec3 0 2 0)]\<rparr>]
         [''male'' \<mapsto> 1/2000, ''young'' \<mapsto> 1/2]"
  using solve_mesh_skip_filter [of "[''male'' \<mapsto> 1/2000, ''young'' \<mapsto> 1/2]" "[Vec3 0 0 0]"
      "[\<lparr>tags = [(''gender'', TagVal ''male'')], data = Some [(0, Vec3 1 0 0)]\<rparr>,
        \<lparr>tags = [(''age'', TagVal ''young'')], data = Some [(0, Vec3 0 2 0)]\<rparr>]"]
  by (simp add: full_weight_def tag_factor_def)

section \<open>Vertex-bone weights: normalisation\<close>

lemma weight_at_Nil [simp]: "weight_at [] v = 0"
  by (simp add: weight_at_def)

lemma weight_at_Cons [simp]:
  "weight_at ((i, w) # e) v = (if i = v then w else 0) + weight_at e v"
  by (simp add: weight_at_def)

lemma weight_at_append [simp]: "weight_at (e @ e') v = weight_at e v + weight_at e' v"
  by (simp add: weight_at_def)


lemma weight_at_absent: "v \<notin> fst ` set e \<Longrightarrow> weight_at e v = 0"
  by (induction e) (auto simp: weight_at_def)



lemma weight_at_distinct:
  "distinct (map fst e) \<Longrightarrow> weight_at e v = (case map_of e v of None \<Rightarrow> 0 | Some x \<Rightarrow> x)"
proof (induction e)
  case Nil
  then show ?case by simp
next
  case (Cons p e)
  obtain i w where p: "p = (i, w)" by (cases p)
  from Cons p have "i = v \<Longrightarrow> map_of e v = None"
    by (auto simp: map_of_eq_None_iff)
  with Cons p show ?case by (auto split: option.splits)
qed

lemma normalized_group_props:
  "distinct (map fst (normalized_group wtot vg)) \<and>
   (\<forall>v. map_of (normalized_group wtot vg) v =
      (if v \<in> fst ` set vg
       then Some (if wtot ! v = 0 then None else Some (weight_at vg v / wtot ! v))
       else None))"
proof (induction vg rule: rev_induct)
  case Nil
  show ?case by (simp add: normalized_group_def)
next
  case (snoc x vg)
  obtain vn w where x: "x = (vn, w)" by (cases x)
  let ?acc = "normalized_group wtot vg"
  have step: "normalized_group wtot (vg @ [x]) =
      AList.map_default vn (fdiv w (wtot ! vn)) (\<lambda>y. fadd y (fdiv w (wtot ! vn))) ?acc"
    by (simp add: normalized_group_def x)
  from snoc have d: "distinct (map fst ?acc)" and
    m: "\<And>v. map_of ?acc v =
      (if v \<in> fst ` set vg
       then Some (if wtot ! v = 0 then None else Some (weight_at vg v / wtot ! v))
       else None)" by auto
  have d': "distinct (map fst (normalized_group wtot (vg @ [x])))"
    unfolding step using d by (rule distinct_map_default)
  have m': "map_of (normalized_group wtot (vg @ [x])) v =
      (if v \<in> fst ` set (vg @ [x])
       then Some (if wtot ! v = 0 then None else Some (weight_at (vg @ [x]) v / wtot ! v))
       else None)" for v
    unfolding step map_of_map_default
    by (auto simp: m x fdiv_def fadd_def add_divide_distrib weight_at_absent)
  from d' m' show ?case by blast
qed

lemma weight_at_mset: "mset e = mset e' \<Longrightarrow> weight_at e v = weight_at e' v"
proof -
  assume "mset e = mset e'"
  then have "mset (map snd (filter (\<lambda>p. fst p = v) e)) = mset (map snd (filter (\<lambda>p. fst p = v) e'))"
    by simp
  then show ?thesis
    unfolding weight_at_def by (metis sum_mset_sum_list)
qed

lemma above_threshold_pair:
  "above_threshold (i, q) = (case q of None \<Rightarrow> False | Some x \<Rightarrow> x > WEIGHT_THRESHOLD)"
  by (simp add: above_threshold_def)



lemma update_fresh: "k \<notin> fst ` set al \<Longrightarrow> AList.update k e al = al @ [(k, e)]"
  by (induction al) auto

lemma total_weight_at_append [simp]:
  "total_weight_at (d @ d') v = total_weight_at d v + total_weight_at d' v"
  by (simp add: total_weight_at_def)







lemma build_result:
  assumes "build_vertex_weights_data raw vertexCount rootBone = Inr (n, bw)"
  obtains wtot where "total_weights raw n = Inr wtot"
    and "bw = add_root wtot rootBone (build_bones wtot raw [])"
  using assms by (auto simp: build_vertex_weights_data_def Let_def split: sum.splits)




text \<open>
  The constructed entries name no vertex twice, which the skinning results below ask of a
  weights dictionary.
\<close>

lemma update_set_cases:
  "(k', e') \<in> set (AList.update k e al) \<Longrightarrow> (k', e') = (k, e) \<or> (k', e') \<in> set al"
  by (induction al) (auto split: if_splits)

lemma bone_entry_distinct:
  shows "distinct (map fst (bone_entry wtot vg))"
  and "\<forall>p \<in> set (bone_entry wtot vg). wtot ! fst p \<noteq> 0"
proof -
  let ?acc = "normalized_group wtot vg"
  have d: "distinct (map fst ?acc)" using normalized_group_props [of wtot vg] by simp
  have keys: "map fst (bone_entry wtot vg) = map fst (filter above_threshold (sort_key fst ?acc))"
    by (simp add: bone_entry_def comp_def split_def)
  have "distinct (map fst (sort_key fst ?acc))" using d by (simp add: distinct_map)
  then show "distinct (map fst (bone_entry wtot vg))"
    unfolding keys by (rule distinct_map_filter)
  show "\<forall>p \<in> set (bone_entry wtot vg). wtot ! fst p \<noteq> 0"
  proof
    fix p assume "p \<in> set (bone_entry wtot vg)"
    then obtain q where in_acc: "(fst p, q) \<in> set ?acc" and ab: "above_threshold (fst p, q)"
      by (auto simp: bone_entry_def)
    from in_acc d have "map_of ?acc (fst p) = Some q" by simp
    with normalized_group_props [of wtot vg] ab show "wtot ! fst p \<noteq> 0"
      by (auto simp: above_threshold_pair split: if_splits)
  qed
qed

lemma build_bones_entries:
  assumes "\<forall>(b, e) \<in> set bw. distinct (map fst e) \<and> (\<forall>p \<in> set e. wtot ! fst p \<noteq> 0)"
  shows "\<forall>(b, e) \<in> set (build_bones wtot raw bw).
           distinct (map fst e) \<and> (\<forall>p \<in> set e. wtot ! fst p \<noteq> 0)"
  using assms
proof (induction wtot raw bw rule: build_bones.induct)
  case (1 wtot bw)
  then show ?case by simp
next
  case (2 wtot bname vgroup r bw)
  show ?case
  proof (cases "vgroup = []")
    case True
    with 2 show ?thesis by simp
  next
    case False
    have "\<forall>(b, e) \<in> set (AList.update bname (bone_entry wtot vgroup) bw).
           distinct (map fst e) \<and> (\<forall>p \<in> set e. wtot ! fst p \<noteq> 0)"
    proof (clarify, rule conjI)
      fix b e assume "(b, e) \<in> set (AList.update bname (bone_entry wtot vgroup) bw)"
      then have c: "(b, e) = (bname, bone_entry wtot vgroup) \<or> (b, e) \<in> set bw"
        by (rule update_set_cases)
      from c 2(3) show "distinct (map fst e)"
        using bone_entry_distinct(1) [of wtot vgroup] by auto
      from c 2(3) show "\<forall>p \<in> set e. wtot ! fst p \<noteq> 0"
        using bone_entry_distinct(2) [of wtot vgroup] by auto
    qed
    from 2(2) [OF False this] False show ?thesis by simp
  qed
qed

lemma build_entries_distinct:
  assumes "build_vertex_weights_data raw vertexCount rootBone = Inr (n, bw)"
  shows "\<forall>(b, e) \<in> set bw. distinct (map fst e)"
proof -
  from assms obtain wtot where bw: "bw = add_root wtot rootBone (build_bones wtot raw [])"
    by (rule build_result)
  let ?bb = "build_bones wtot raw []"
  have inv: "\<forall>(b, e) \<in> set ?bb. distinct (map fst e) \<and> (\<forall>p \<in> set e. wtot ! fst p \<noteq> 0)"
    by (rule build_bones_entries) simp
  let ?vs = "case map_of ?bb rootBone of None \<Rightarrow> [] | Some e \<Rightarrow> e"
  let ?rw = "filter (\<lambda>i. wtot ! i = 0) [0..<length wtot]"
  have vs: "distinct (map fst ?vs) \<and> (\<forall>p \<in> set ?vs. wtot ! fst p \<noteq> 0)"
  proof (cases "map_of ?bb rootBone")
    case None
    then show ?thesis by simp
  next
    case (Some e)
    then have "(rootBone, e) \<in> set ?bb" by (rule map_of_SomeD)
    with inv Some show ?thesis by fastforce
  qed
  have "distinct (map fst (?vs @ map (\<lambda>i. (i, 1)) ?rw))"
    using vs by (fastforce simp: comp_def)
  with vs have root: "distinct (map fst (if ?rw \<noteq> [] then ?vs @ map (\<lambda>i. (i, 1)) ?rw else ?vs))"
    by simp
  show ?thesis
  proof (clarify)
    fix b e assume "(b, e) \<in> set bw"
    then have "(b, e) \<in> set ?bb \<or>
        (b, e) = (rootBone, if ?rw \<noteq> [] then ?vs @ map (\<lambda>i. (i, 1)) ?rw else ?vs)"
      unfolding bw add_root_def Let_def
      by (auto dest!: update_set_cases split: if_splits)
    with inv root show "distinct (map fst e)" by auto
  qed
qed

section \<open>Weight retargeting: merged weights\<close>

lemma weight_at_map_default:
  assumes "distinct (map fst c)"
  shows "weight_at (AList.map_default v' (0 + w) (\<lambda>x. x + w) c) v
       = weight_at c v + (if v' = v then w else 0)"
proof -
  have d: "distinct (map fst (AList.map_default v' (0 + w) (\<lambda>x. x + w) c))"
    using assms by (rule distinct_map_default)
  show ?thesis
    unfolding weight_at_distinct [OF d] weight_at_distinct [OF assms] map_of_map_default
    by (auto split: option.splits)
qed

lemma add_weights_props:
  "distinct (map fst c) \<Longrightarrow>
   distinct (map fst (add_weights c e)) \<and>
   weight_at (add_weights c e) v = weight_at c v + weight_at e v"
proof (induction e arbitrary: c)
  case Nil
  then show ?case by (simp add: add_weights_def)
next
  case (Cons p e)
  obtain v' w where p: "p = (v', w)" by (cases p)
  let ?c = "AList.map_default v' (0 + w) (\<lambda>x. x + w) c"
  have d: "distinct (map fst ?c)" using Cons.prems by (rule distinct_map_default)
  have step: "add_weights c (p # e) = add_weights ?c e"
    by (simp add: add_weights_def p)
  from Cons.IH [OF d] weight_at_map_default [OF Cons.prems, of v' w v]
  show ?case unfolding step by (simp add: p)
qed

lemma collect_refs_props:
  "distinct (map fst (collect_refs d refs)) \<and>
   weight_at (collect_refs d refs) v = sum_list (map (\<lambda>r. weight_at (entry_of d r) v) refs)"
proof (induction refs rule: rev_induct)
  case Nil
  show ?case by (simp add: collect_refs_def)
next
  case (snoc r refs)
  have step: "collect_refs d (refs @ [r]) =
      (case map_of d r of None \<Rightarrow> collect_refs d refs | Some e \<Rightarrow> add_weights (collect_refs d refs) e)"
    by (simp add: collect_refs_def split: option.splits)
  from snoc have dc: "distinct (map fst (collect_refs d refs))" by simp
  show ?case
    unfolding step using snoc add_weights_props [OF dc]
    by (simp add: entry_of_def split: option.splits)
qed

lemma sorted_entry_props:
  assumes "distinct (map fst c)"
  shows "distinct (map fst (sort_key fst c))" and "sorted (map fst (sort_key fst c))"
    and "weight_at (sort_key fst c) v = weight_at c v"
proof -
  show "distinct (map fst (sort_key fst c))"
    using assms by (simp add: distinct_map)
  show "sorted (map fst (sort_key fst c))" by simp
  show "weight_at (sort_key fst c) v = weight_at c v"
    by (rule weight_at_mset) simp
qed

lemma retarget_bones_other:
  "k \<notin> name ` set bs \<Longrightarrow> map_of (fst (retarget_bones bs d new h)) k = map_of new k"
proof (induction bs arbitrary: new h)
  case Nil
  then show ?case by simp
next
  case (Cons b bs)
  then have k: "k \<noteq> name b" and rest: "k \<notin> name ` set bs" by auto
  show ?case
    using Cons.IH [OF rest] k
    by (simp add: Let_def update_conv' split: option.splits)
qed

lemma retarget_bones_flag:
  "snd (retarget_bones bs d new h) = (h \<or> list_ex (\<lambda>b. bone_refs b \<noteq> []) bs)"
  by (induction bs arbitrary: new h) (auto simp: Let_def split: option.splits)

lemma retarget_bones_lookup:
  assumes "distinct (map name bs)" "b \<in> set bs"
  shows "map_of (fst (retarget_bones bs d new h)) (name b) =
     (if bone_refs b \<noteq> [] then
        (if collect_refs d (bone_refs b) \<noteq> []
         then Some (sort_key fst (collect_refs d (bone_refs b)))
         else map_of new (name b))
      else (case map_of d (name b) of Some e \<Rightarrow> Some e | None \<Rightarrow> map_of new (name b)))"
  using assms
proof (induction bs arbitrary: new h)
  case Nil
  then show ?case by simp
next
  case (Cons a bs)
  show ?case
  proof (cases "b = a")
    case True
    from Cons.prems(1) have "name a \<notin> name ` set bs" by auto
    then show ?thesis
      unfolding True
      by (simp add: Let_def retarget_bones_other update_conv' split: option.splits)
  next
    case False
    with Cons.prems have b: "b \<in> set bs" and d: "distinct (map name bs)"
      and na: "name a \<notin> name ` set bs" by auto
    have ne: "name b \<noteq> name a"
    proof
      assume "name b = name a"
      with b have "name a \<in> name ` set bs" by (metis imageI)
      with na show False by simp
    qed
    show ?thesis
      using Cons.IH [OF d b] ne
      by (simp add: Let_def update_conv' split: option.splits)
  qed
qed

lemma merge_sources_added:
  "snd (foldl (\<lambda>(c, added) src.
              case map_of d src of None \<Rightarrow> (c, added) | Some e \<Rightarrow> (add_weights c e, True))
           (c0, a0) sources)
   = (a0 \<or> list_ex (\<lambda>src. map_of d src \<noteq> None) sources)"
  by (induction sources arbitrary: c0 a0) (auto split: option.splits)

lemma cleanup_row_other:
  assumes "\<not> (fst row = k \<and> map_of d k \<noteq> None \<and> list_ex (\<lambda>src. map_of d src \<noteq> None) (snd row))"
  shows "map_of (cleanup_row d new row) k = map_of new k"
proof -
  obtain t sources where row: "row = (t, sources)" by (cases row)
  let ?m = "merge_sources d (dict_of_pairs (case map_of new t of None \<Rightarrow> [] | Some e \<Rightarrow> e)) sources"
  have added: "snd ?m = list_ex (\<lambda>src. map_of d src \<noteq> None) sources"
    unfolding merge_sources_def by (simp add: merge_sources_added)
  show ?thesis
  proof (cases "t = k")
    case True
    with assms row added show ?thesis
      by (auto simp: cleanup_row_def Let_def split_def split: option.splits)
  next
    case False
    then show ?thesis
      by (auto simp: row cleanup_row_def Let_def split_def update_conv' split: option.splits)
  qed
qed

lemma cleanup_other:
  assumes "\<forall>row \<in> set rows.
     \<not> (fst row = k \<and> map_of d k \<noteq> None \<and> list_ex (\<lambda>src. map_of d src \<noteq> None) (snd row))"
  shows "map_of (foldl (cleanup_row d) new rows) k = map_of new k"
  using assms
  by (induction rows arbitrary: new) (simp_all add: cleanup_row_other)

lemma retarget_weights_unchanged:
  "\<not> list_ex (\<lambda>b. bone_refs b \<noteq> []) boneslist \<Longrightarrow> retarget_weights boneslist d = d"
  by (simp add: retarget_weights_def split_def retarget_bones_flag)

lemma merge_sources_props:
  "distinct (map fst c) \<Longrightarrow>
   distinct (map fst (fst (merge_sources d c sources))) \<and>
   weight_at (fst (merge_sources d c sources)) v
     = weight_at c v + sum_list (map (\<lambda>src. weight_at (entry_of d src) v) sources)"
proof (induction sources rule: rev_induct)
  case Nil
  then show ?case by (simp add: merge_sources_def)
next
  case (snoc src sources)
  have step: "fst (merge_sources d c (sources @ [src])) =
      (case map_of d src of None \<Rightarrow> fst (merge_sources d c sources)
                          | Some e \<Rightarrow> add_weights (fst (merge_sources d c sources)) e)"
    by (simp add: merge_sources_def split_def split: option.splits)
  from snoc have dc: "distinct (map fst (fst (merge_sources d c sources)))" by simp
  show ?case
    unfolding step using snoc add_weights_props [OF dc]
    by (simp add: entry_of_def split: option.splits)
qed

lemma merge_sources_flag:
  "snd (merge_sources d c sources) = list_ex (\<lambda>src. map_of d src \<noteq> None) sources"
  unfolding merge_sources_def by (simp add: merge_sources_added)

lemma dict_of_pairs_distinct: "distinct (map fst (dict_of_pairs ps))"
proof (induction ps rule: rev_induct)
  case Nil
  show ?case by (simp add: dict_of_pairs_def)
next
  case (snoc p ps)
  obtain k x where p: "p = (k, x)" by (cases p)
  have "dict_of_pairs (ps @ [p]) = AList.update k x (dict_of_pairs ps)"
    by (simp add: dict_of_pairs_def p)
  with snoc show ?case by (simp add: distinct_update)
qed

lemma dict_of_pairs_id: "distinct (map fst ps) \<Longrightarrow> dict_of_pairs ps = ps"
proof (induction ps rule: rev_induct)
  case Nil
  show ?case by (simp add: dict_of_pairs_def)
next
  case (snoc p ps)
  obtain k x where p: "p = (k, x)" by (cases p)
  from snoc.prems p have d: "distinct (map fst ps)" and k: "k \<notin> fst ` set ps" by auto
  have "dict_of_pairs (ps @ [p]) = AList.update k x (dict_of_pairs ps)"
    by (simp add: dict_of_pairs_def p)
  with snoc.IH [OF d] k show ?case by (simp add: update_fresh p)
qed

lemma cleanup_row_lookup:
  "map_of (cleanup_row d new (k, sources)) k =
     (if map_of d k \<noteq> None \<and> list_ex (\<lambda>src. map_of d src \<noteq> None) sources
      then Some (sort_key fst (fst (merge_sources d (dict_of_pairs (entry_of new k)) sources)))
      else map_of new k)"
  using merge_sources_flag [of d "dict_of_pairs (entry_of new k)" sources]
  by (auto simp: cleanup_row_def Let_def split_def entry_of_def update_conv' split: option.splits)

lemma cleanup_lookup:
  assumes "distinct (map fst rows)"
  shows "map_of (foldl (cleanup_row d) new rows) k =
     (case map_of rows k of
        None \<Rightarrow> map_of new k
      | Some sources \<Rightarrow> map_of (cleanup_row d new (k, sources)) k)"
  using assms
proof (induction rows arbitrary: new)
  case Nil
  show ?case by simp
next
  case (Cons row rows)
  obtain t s where row: "row = (t, s)" by (cases row)
  from Cons.prems row have d: "distinct (map fst rows)" and t: "t \<notin> fst ` set rows" by auto
  show ?case
  proof (cases "t = k")
    case True
    with t have "\<forall>r \<in> set rows. fst r \<noteq> k" by auto
    then have "map_of (foldl (cleanup_row d) (cleanup_row d new row) rows) k
        = map_of (cleanup_row d new row) k"
      by (intro cleanup_other) auto
    with True row show ?thesis by simp
  next
    case False
    have o: "map_of (cleanup_row d new row) k = map_of new k"
      using False by (intro cleanup_row_other) (simp add: row)
    then have e: "entry_of (cleanup_row d new row) k = entry_of new k"
      by (simp add: entry_of_def)
    show ?thesis
      using Cons.IH [OF d, of "cleanup_row d new row"] False o e
      by (simp add: row cleanup_row_lookup split: option.splits)
  qed
qed

lemma absorbs_helpers_sources:
  "absorbs_helpers d k =
     (map_of d k \<noteq> None \<and> list_ex (\<lambda>src. map_of d src \<noteq> None) (helper_sources k))"
proof -
  have "distinct (map fst rows) \<Longrightarrow>
      list_ex (\<lambda>(t, s). t = k \<and> P s) rows =
        (case map_of rows k of None \<Rightarrow> False | Some s \<Rightarrow> P s)" for rows :: "(string \<times> string list) list" and P
    by (induction rows) (auto simp: map_of_eq_None_iff image_iff split: option.splits)
  moreover have "distinct (map fst extra_mapping)" by (simp add: extra_mapping_def)
  ultimately show ?thesis
    by (auto simp: absorbs_helpers_def helper_sources_def split: option.splits)
qed

lemma retarget_weights_lookup:
  assumes "list_ex (\<lambda>b. bone_refs b \<noteq> []) boneslist"
  shows "map_of (retarget_weights boneslist d) k =
     (if absorbs_helpers d k
      then Some (sort_key fst (fst (merge_sources d
             (dict_of_pairs (entry_of (fst (retarget_bones boneslist d [] False)) k))
             (helper_sources k))))
      else map_of (fst (retarget_bones boneslist d [] False)) k)"
proof -
  have flag: "snd (retarget_bones boneslist d [] False)"
    using assms by (simp add: retarget_bones_flag)
  then have r: "retarget_weights boneslist d =
      foldl (cleanup_row d) (fst (retarget_bones boneslist d [] False)) extra_mapping"
    by (simp add: retarget_weights_def split_def)
  have "distinct (map fst extra_mapping)" by (simp add: extra_mapping_def)
  from cleanup_lookup [OF this] show ?thesis
    unfolding r
    by (auto simp: cleanup_row_lookup absorbs_helpers_sources helper_sources_def
        split: option.splits)
qed

lemma helper_weight_none: "\<not> absorbs_helpers d k \<Longrightarrow> helper_weight d k v = 0"
proof -
  assume a: "\<not> absorbs_helpers d k"
  have z: "(\<forall>x \<in> set xs. f x = 0) \<Longrightarrow> sum_list (map f xs) = 0" for f :: "string \<Rightarrow> real" and xs
    by (induction xs) auto
  show ?thesis
  proof (cases "map_of d k = None")
    case True
    then show ?thesis by (simp add: helper_weight_def)
  next
    case False
    with a have "\<forall>src \<in> set (helper_sources k). map_of d src = None"
      by (auto simp: absorbs_helpers_sources list_ex_iff)
    then have "\<forall>src \<in> set (helper_sources k). weight_at (entry_of d src) v = 0"
      by (auto simp: entry_of_def)
    from z [OF this] show ?thesis by (simp add: helper_weight_def)
  qed
qed

lemma absorbed_entry_props:
  assumes "absorbs_helpers d k" and "distinct (map fst c)"
  shows "weight_at (sort_key fst (fst (merge_sources d c (helper_sources k)))) v
       = weight_at c v + helper_weight d k v"
    and "distinct (map fst (sort_key fst (fst (merge_sources d c (helper_sources k)))))"
    and "sorted (map fst (sort_key fst (fst (merge_sources d c (helper_sources k)))))"
proof -
  note m = merge_sources_props [OF assms(2), of d "helper_sources k"]
  from m have dm: "distinct (map fst (fst (merge_sources d c (helper_sources k))))" by simp
  from assms(1) have key: "map_of d k \<noteq> None" by (simp add: absorbs_helpers_sources)
  show "weight_at (sort_key fst (fst (merge_sources d c (helper_sources k)))) v
       = weight_at c v + helper_weight d k v"
    using sorted_entry_props(3) [OF dm] m key by (auto simp: helper_weight_def)
  show "distinct (map fst (sort_key fst (fst (merge_sources d c (helper_sources k)))))"
    by (rule sorted_entry_props(1) [OF dm])
  show "sorted (map fst (sort_key fst (fst (merge_sources d c (helper_sources k)))))"
    by (rule sorted_entry_props(2) [OF dm])
qed

text \<open>
  Claim C6, as stated, fails: bone \<open>head\<close> references \<open>skull\<close>, which gives vertex 0 the
  weight 1/2, but \<open>head\<close> is a target of the supplementary table and \<open>jaw\<close> is among the
  source weights, so the weight of \<open>jaw\<close> is merged in and vertex 0 ends with 3/4.
\<close>

theorem retarget_weights_counterexample:
  "bone_refs \<lparr>name = ''head'', reference_bones = [''skull''], weight_reference_bones = None\<rparr> = [''skull'']
   \<and> retarget_weights
        [\<lparr>name = ''head'', reference_bones = [''skull''], weight_reference_bones = None\<rparr>]
        [(''skull'', [(0, 1/2)]), (''head'', [(5, 1)]), (''jaw'', [(0, 1/4)])]
       = [(''head'', [(0, 3/4)])]
   \<and> weight_at (entry_of [(''head'', [(0, 3/4)])] ''head'') 0
       \<noteq> weight_at (entry_of [(''skull'', [(0, 1/2)]), (''head'', [(5, 1)]), (''jaw'', [(0, 1/4)])] ''skull'') 0"
  by (simp add: bone_refs_def retarget_weights_def collect_refs_def add_weights_def
      extra_mapping_def cleanup_row_def merge_sources_def dict_of_pairs_def entry_of_def)

text \<open>
  Claim C6, amended.  For every bone that declares reference bones, retargeting gives a
  weight list without a duplicate vertex index and sorted by ascending vertex index, whose
  per-vertex weight is the sum of the referenced source bones' weights for that vertex
  plus the weight of the helper bones that the supplementary table lists for the bone
  (zero unless the bone is a table target and a key of the source weights).  A bone that
  declares none and whose name is in the source weight set keeps its direct weights,
  unless some bone of the skeleton declares references and the bone absorbs helper
  weights: then its list is duplicate-free and sorted, and holds its direct weights plus
  the helper weights.
\<close>

theorem retarget_weights_merged:
  assumes "distinct (map name boneslist)" "b \<in> set boneslist"
  shows "(bone_refs b \<noteq> [] \<longrightarrow>
           (\<forall>v. weight_at (entry_of (retarget_weights boneslist d) (name b)) v
                  = sum_list (map (\<lambda>r. weight_at (entry_of d r) v) (bone_refs b))
                    + helper_weight d (name b) v)
           \<and> distinct (map fst (entry_of (retarget_weights boneslist d) (name b)))
           \<and> sorted (map fst (entry_of (retarget_weights boneslist d) (name b))))
       \<and> (bone_refs b = [] \<longrightarrow> map_of d (name b) \<noteq> None \<longrightarrow>
           (if list_ex (\<lambda>b. bone_refs b \<noteq> []) boneslist \<and> absorbs_helpers d (name b)
            then (\<forall>v. weight_at (entry_of (retarget_weights boneslist d) (name b)) v
                        = weight_at (dict_of_pairs (entry_of d (name b))) v
                          + helper_weight d (name b) v)
                 \<and> distinct (map fst (entry_of (retarget_weights boneslist d) (name b)))
                 \<and> sorted (map fst (entry_of (retarget_weights boneslist d) (name b)))
            else entry_of (retarget_weights boneslist d) (name b) = entry_of d (name b)))"
proof -
  let ?new = "fst (retarget_bones boneslist d [] False)"
  let ?c = "collect_refs d (bone_refs b)"
  let ?e = "entry_of (retarget_weights boneslist d) (name b)"
  have dc: "distinct (map fst ?c)" using collect_refs_props [of d "bone_refs b"] by simp
  have wc: "weight_at ?c v = sum_list (map (\<lambda>r. weight_at (entry_of d r) v) (bone_refs b))" for v
    using collect_refs_props [of d "bone_refs b" v] by simp
  have merged: "(\<forall>v. weight_at ?e v
                  = sum_list (map (\<lambda>r. weight_at (entry_of d r) v) (bone_refs b))
                    + helper_weight d (name b) v)
           \<and> distinct (map fst ?e) \<and> sorted (map fst ?e)"
    if refs: "bone_refs b \<noteq> []"
  proof -
    from refs assms(2) have ex: "list_ex (\<lambda>b. bone_refs b \<noteq> []) boneslist"
      by (auto simp: list_ex_iff)
    let ?s = "if ?c \<noteq> [] then sort_key fst ?c else []"
    have n: "entry_of ?new (name b) = ?s"
      unfolding entry_of_def retarget_bones_lookup [OF assms(1,2)] using refs by simp
    have ds: "distinct (map fst ?s)" and ss: "sorted (map fst ?s)"
      using sorted_entry_props(1,2) [OF dc] by simp_all
    have ws: "weight_at ?s v = sum_list (map (\<lambda>r. weight_at (entry_of d r) v) (bone_refs b))" for v
      using sorted_entry_props(3) [OF dc, of v] wc [of v] by (cases "?c = []") simp_all
    show ?thesis
    proof (cases "absorbs_helpers d (name b)")
      case True
      have e: "?e = sort_key fst (fst (merge_sources d ?s (helper_sources (name b))))"
        unfolding entry_of_def retarget_weights_lookup [OF ex]
        using True n dict_of_pairs_id [OF ds] by (simp add: entry_of_def)
      show ?thesis
        unfolding e using absorbed_entry_props [OF True ds] ws by simp
    next
      case False
      have e: "?e = ?s"
        using False n by (simp add: entry_of_def retarget_weights_lookup [OF ex])
      show ?thesis
        unfolding e using ds ss ws helper_weight_none [OF False] by simp
    qed
  qed
  have kept: "if list_ex (\<lambda>b. bone_refs b \<noteq> []) boneslist \<and> absorbs_helpers d (name b)
            then (\<forall>v. weight_at ?e v
                        = weight_at (dict_of_pairs (entry_of d (name b))) v
                          + helper_weight d (name b) v)
                 \<and> distinct (map fst ?e) \<and> sorted (map fst ?e)
            else ?e = entry_of d (name b)"
    if norefs: "bone_refs b = []" and present: "map_of d (name b) \<noteq> None"
  proof (cases "list_ex (\<lambda>b. bone_refs b \<noteq> []) boneslist")
    case ex: True
    have n: "entry_of ?new (name b) = entry_of d (name b)"
      unfolding entry_of_def retarget_bones_lookup [OF assms(1,2)]
      using norefs present by (auto split: option.splits)
    show ?thesis
    proof (cases "absorbs_helpers d (name b)")
      case True
      have e: "?e = sort_key fst (fst (merge_sources d (dict_of_pairs (entry_of d (name b)))
                 (helper_sources (name b))))"
        unfolding entry_of_def retarget_weights_lookup [OF ex]
        using True n by (simp add: entry_of_def)
      show ?thesis
        unfolding e using absorbed_entry_props [OF True dict_of_pairs_distinct] ex True by simp
    next
      case False
      then show ?thesis
        using n by (simp add: entry_of_def retarget_weights_lookup [OF ex])
    qed
  next
    case False
    then show ?thesis by (simp add: retarget_weights_unchanged)
  qed
  from merged kept show ?thesis by blast
qed

theorem retarget_weights_merged_witness:
  "retarget_weights
     [\<lparr>name = ''head'', reference_bones = [''skull''], weight_reference_bones = None\<rparr>,
      \<lparr>name = ''upperarm_l'', reference_bones = [''upperarm01.L'', ''upperarm02.L''],
       weight_reference_bones = None\<rparr>,
      \<lparr>name = ''root'', reference_bones = [], weight_reference_bones = None\<rparr>]
     [(''root'', [(2, 1)]), (''upperarm01.L'', [(1, 1/2), (0, 1)]), (''upperarm02.L'', [(1, 1/2)]),
      (''skull'', [(4, 1/2)]), (''head'', [(5, 1)]), (''jaw'', [(4, 1/4), (3, 1)])]
   = [(''head'', [(3, 1), (4, 3/4)]), (''upperarm_l'', [(0, 1), (1, 1)]), (''root'', [(2, 1)])]
   \<and> weight_at [(3, 1), (4, 3/4)] 4 = 1/2 + (1/4 + 0)
   \<and> weight_at [(0, 1), (1, 1)] 1 = 1/2 + 1/2 + 0
   \<and> entry_of [(''head'', [(3, 1), (4, 3/4)]), (''upperarm_l'', [(0, 1), (1, 1)]), (''root'', [(2, 1)])]
       ''root'' = [(2, 1)]"
proof -
  let ?head = "\<lparr>name = ''head'', reference_bones = [''skull''], weight_reference_bones = None\<rparr>"
  let ?arm = "\<lparr>name = ''upperarm_l'', reference_bones = [''upperarm01.L'', ''upperarm02.L''],
       weight_reference_bones = None\<rparr>"
  let ?root = "\<lparr>name = ''root'', reference_bones = [], weight_reference_bones = None\<rparr>"
  let ?d = "[(''root'', [(2::nat, 1::real)]), (''upperarm01.L'', [(1, 1/2), (0, 1)]),
             (''upperarm02.L'', [(1, 1/2)]), (''skull'', [(4, 1/2)]), (''head'', [(5, 1)]),
             (''jaw'', [(4, 1/4), (3, 1)])]"
  let ?r = "[(''head'', [(3::nat, 1::real), (4, 3/4)]), (''upperarm_l'', [(0, 1), (1, 1)]),
             (''root'', [(2, 1)])]"
  have dn: "distinct (map name [?head, ?arm, ?root])" by simp
  have r: "retarget_weights [?head, ?arm, ?root] ?d = ?r"
    by (simp add: bone_refs_def retarget_weights_def collect_refs_def add_weights_def
      extra_mapping_def cleanup_row_def merge_sources_def dict_of_pairs_def)
  have a: "\<not> absorbs_helpers ?d ''root''" by (simp add: absorbs_helpers_def extra_mapping_def)
  have h: "helper_weight ?d ''head'' 4 = 1/4 + 0"
    by (simp add: helper_weight_def helper_sources_def extra_mapping_def entry_of_def)
  have u: "helper_weight ?d ''upperarm_l'' 1 = 0"
    by (simp add: helper_weight_def)
  have w1: "weight_at [(3, 1), (4, 3/4)] 4 = 1/2 + (1/4 + 0)"
    using retarget_weights_merged [OF dn, of ?head ?d] r h
    by (simp add: bone_refs_def entry_of_def)
  have w2: "weight_at [(0, 1), (1, 1)] 1 = 1/2 + 1/2 + 0"
    using retarget_weights_merged [OF dn, of ?arm ?d] r u
    by (simp add: bone_refs_def entry_of_def)
  have k: "entry_of ?r ''root'' = [(2, 1)]"
    using retarget_weights_merged [OF dn, of ?root ?d] r a
    by (simp add: bone_refs_def entry_of_def)
  from r w1 w2 k show ?thesis by simp
qed

section \<open>Matrix algebra\<close>

lemma dot_assoc: "dot (dot A B) C = dot A (dot B C)"
  by (simp add: dot_def algebra_simps)

lemma dot_identity_right [simp]: "dot A identity = A"
  by (cases A) (simp add: dot_def identity_def)

lemma dot_identity_left [simp]: "dot identity A = A"
  by (cases A) (simp add: dot_def identity_def)

lemma dot_adj_right: "dot M (adj4 M) = smat (det4 M) identity"
  by (simp add: dot_def adj4_def smat_def det4_def det3_def identity_def algebra_simps)

lemma dot_adj_left: "dot (adj4 M) M = smat (det4 M) identity"
  by (simp add: dot_def adj4_def smat_def det4_def det3_def identity_def algebra_simps)

lemma det4_dot: "det4 (dot A B) = det4 A * det4 B"
  unfolding dot_def det4_def det3_def mat4.sel
  by algebra

lemma det4_identity [simp]: "det4 identity = 1"
  by (simp add: det4_def det3_def identity_def)

lemma dot_smat_right: "dot A (smat c B) = smat c (dot A B)"
  by (simp add: dot_def smat_def algebra_simps)

lemma dot_smat_left: "dot (smat c A) B = smat c (dot A B)"
  by (simp add: dot_def smat_def algebra_simps)

lemma smat_smat: "smat c (smat d A) = smat (c * d) A"
  by (simp add: smat_def algebra_simps)

lemma smat_one [simp]: "smat 1 A = A"
  by (cases A) (simp add: smat_def)

lemma la_inv_inverse:
  assumes "la_inv M = Inr N"
  shows "dot M N = identity" and "dot N M = identity"
proof -
  from assms have d: "det4 M \<noteq> 0" and N: "N = smat (1 / det4 M) (adj4 M)"
    by (auto simp: la_inv_def split: if_splits)
  show "dot M N = identity"
    using d by (simp add: N dot_smat_right dot_adj_right smat_smat)
  show "dot N M = identity"
    using d by (simp add: N dot_smat_left dot_adj_left smat_smat)
qed

lemma la_inv_error: "la_inv M = Inl e \<longleftrightarrow> e = LinAlgError \<and> det4 M = 0"
  by (auto simp: la_inv_def)

lemma invertible_det: "dot M N = identity \<Longrightarrow> det4 M \<noteq> 0"
proof
  assume a: "dot M N = identity" and z: "det4 M = 0"
  have "det4 (dot M N) = det4 M * det4 N" by (rule det4_dot)
  with a z show False by simp
qed

lemma la_inv_singular: "(\<exists>e. la_inv M = Inl e) \<longleftrightarrow> \<not> (\<exists>N. dot M N = identity)"
proof
  assume "\<exists>e. la_inv M = Inl e"
  then have "det4 M = 0" by (auto simp: la_inv_error)
  then show "\<not> (\<exists>N. dot M N = identity)" using invertible_det by blast
next
  assume no: "\<not> (\<exists>N. dot M N = identity)"
  show "\<exists>e. la_inv M = Inl e"
  proof (cases "la_inv M")
    case (Inl e)
    then show ?thesis by blast
  next
    case (Inr N)
    with no la_inv_inverse(1) show ?thesis by blast
  qed
qed

lemma la_inv_unique:
  assumes "dot M N = identity"
  shows "la_inv M = Inr N"
proof -
  from assms have "det4 M \<noteq> 0" by (rule invertible_det)
  then obtain N' where N': "la_inv M = Inr N'" by (auto simp: la_inv_def)
  have "N' = dot N' (dot M N)" by (simp add: assms)
  also have "\<dots> = dot (dot N' M) N" by (simp add: dot_assoc)
  also have "\<dots> = N" by (simp add: la_inv_inverse(2) [OF N'])
  finally show ?thesis using N' by simp
qed

section \<open>Pose propagation: the skinning matrix\<close>

lemma Bone_update_total:
  "Bone_update pg b =
     Inr (b\<lparr>matPoseGlobal :=
              (case pg of Some g \<Rightarrow> dot g (dot (matRestRelative b) (matPose b))
                        | None \<Rightarrow> dot (matRestRelative b) (matPose b)),
            matPoseVerts :=
              (case la_inv (matRestGlobal b) of
                 Inr invRest \<Rightarrow>
                   dot (case pg of Some g \<Rightarrow> dot g (dot (matRestRelative b) (matPose b))
                                 | None \<Rightarrow> dot (matRestRelative b) (matPose b)) invRest
               | Inl e \<Rightarrow> identity)\<rparr>)"
  by (auto simp: Bone_update_def Bone_update_with_def Let_def la_inv_def split: sum.splits error.splits)

lemma Bone_update_updated: "Bone_update pg b = Inr (updated pg b)"
  by (simp add: Bone_update_total updated_def Let_def)

lemma update_bone_updated:
  "update_bone bs i =
     Inr (bs[i := updated (map_option (\<lambda>p. matPoseGlobal (bs ! p)) (parent (bs ! i))) (bs ! i)])"
  by (simp add: update_bone_def Bone_update_updated)



section \<open>Skinning in the identity pose\<close>

lemma update_bone_total:
  "update_bone bs i =
     Inr (bs[i := (bs ! i)\<lparr>matPoseGlobal :=
              (case map_option (\<lambda>p. matPoseGlobal (bs ! p)) (parent (bs ! i)) of
                 Some g \<Rightarrow> dot g (dot (matRestRelative (bs ! i)) (matPose (bs ! i)))
               | None \<Rightarrow> dot (matRestRelative (bs ! i)) (matPose (bs ! i))),
            matPoseVerts :=
              (case la_inv (matRestGlobal (bs ! i)) of
                 Inr invRest \<Rightarrow>
                   dot (case map_option (\<lambda>p. matPoseGlobal (bs ! p)) (parent (bs ! i)) of
                          Some g \<Rightarrow> dot g (dot (matRestRelative (bs ! i)) (matPose (bs ! i)))
                        | None \<Rightarrow> dot (matRestRelative (bs ! i)) (matPose (bs ! i))) invRest
               | Inl e \<Rightarrow> identity)\<rparr>])"
  by (simp add: update_bone_def Bone_update_total)

lemma update_bones_identity_pose:
  assumes "rest_consistent bs0" "length bs = length bs0"
    and "\<forall>j < length bs0. same_rest (bs ! j) (bs0 ! j) \<and> matPose (bs ! j) = identity"
    and "\<forall>j < k. matPoseGlobal (bs ! j) = matRestGlobal (bs0 ! j) \<and> matPoseVerts (bs ! j) = identity"
    and "k \<le> length bs0"
    and "update_bones bs [k..<length bs0] = Inr bs'"
  shows "length bs' = length bs0 \<and>
     (\<forall>j < length bs0. same_rest (bs' ! j) (bs0 ! j) \<and> matPose (bs' ! j) = identity
        \<and> matPoseGlobal (bs' ! j) = matRestGlobal (bs0 ! j) \<and> matPoseVerts (bs' ! j) = identity)"
  using assms(2-6)
proof (induction "length bs0 - k" arbitrary: k bs)
  case 0
  then have "k = length bs0" by simp
  with 0 show ?case by simp
next
  case (Suc d)
  then have k: "k < length bs0" by simp
  have upt: "[k..<length bs0] = k # [Suc k..<length bs0]"
    using k by (simp add: upt_conv_Cons)
  let ?b = "bs ! k"
  have rc: "rest_consistent_at bs0 k"
    using assms(1) k by (simp add: rest_consistent_def list_all_iff)
  have sr: "same_rest ?b (bs0 ! k)" and mp: "matPose ?b = identity"
    using Suc.prems(2) k by auto
  let ?g = "case map_option (\<lambda>p. matPoseGlobal (bs ! p)) (parent ?b) of
              Some g \<Rightarrow> dot g (dot (matRestRelative ?b) (matPose ?b))
            | None \<Rightarrow> dot (matRestRelative ?b) (matPose ?b)"
  have g: "?g = matRestGlobal (bs0 ! k)"
  proof (cases "parent (bs0 ! k)")
    case None
    with rc sr mp show ?thesis
      by (simp add: rest_consistent_at_def same_rest_def)
  next
    case (Some p)
    with rc obtain ip where p: "p < k" and ip: "la_inv (matRestGlobal (bs0 ! p)) = Inr ip"
      and rel: "matRestRelative (bs0 ! k) = dot ip (matRestGlobal (bs0 ! k))"
      by (auto simp: rest_consistent_at_def split: sum.splits)
    from Suc.prems(3) p have gp: "matPoseGlobal (bs ! p) = matRestGlobal (bs0 ! p)" by simp
    have "?g = dot (matRestGlobal (bs0 ! p)) (dot ip (matRestGlobal (bs0 ! k)))"
      using Some sr mp gp rel by (simp add: same_rest_def)
    also have "\<dots> = dot (dot (matRestGlobal (bs0 ! p)) ip) (matRestGlobal (bs0 ! k))"
      by (simp add: dot_assoc)
    also have "\<dots> = matRestGlobal (bs0 ! k)"
      by (simp add: la_inv_inverse(1) [OF ip])
    finally show ?thesis .
  qed
  let ?s = "case la_inv (matRestGlobal ?b) of Inr invRest \<Rightarrow> dot ?g invRest | Inl e \<Rightarrow> identity"
  have s: "?s = identity"
  proof (cases "la_inv (matRestGlobal ?b)")
    case (Inl e)
    then show ?thesis by simp
  next
    case (Inr invRest)
    have "matRestGlobal ?b = matRestGlobal (bs0 ! k)" using sr by (simp add: same_rest_def)
    with Inr g la_inv_inverse(1) [OF Inr] show ?thesis by simp
  qed
  let ?bs = "bs[k := ?b\<lparr>matPoseGlobal := ?g, matPoseVerts := ?s\<rparr>]"
  have step: "update_bone bs k = Inr ?bs" by (rule update_bone_total)
  have rest: "update_bones ?bs [Suc k..<length bs0] = Inr bs'"
    using Suc.prems(5) unfolding upt by (simp add: step)
  have len: "length ?bs = length bs0" using Suc.prems(1) by simp
  have kl: "k < length bs" using k Suc.prems(1) by simp
  have inv1: "\<forall>j < length bs0. same_rest (?bs ! j) (bs0 ! j) \<and> matPose (?bs ! j) = identity"
    using Suc.prems(2) kl by (auto simp: nth_list_update same_rest_def)
  have inv2: "\<forall>j < Suc k. matPoseGlobal (?bs ! j) = matRestGlobal (bs0 ! j)
      \<and> matPoseVerts (?bs ! j) = identity"
    using Suc.prems(3) kl g s by (auto simp: nth_list_update less_Suc_eq)
  have d: "d = length bs0 - Suc k" using Suc.hyps(2) by simp
  show ?case
    using Suc.hyps(1) [OF d len inv1 inv2 _ rest] k by simp
qed

lemma update_all_identity_pose:
  assumes "rest_consistent bs" "\<forall>b \<in> set bs. matPose b = identity" "update_all bs = Inr bs'"
  shows "length bs' = length bs"
    and "j < length bs \<Longrightarrow> name (bs' ! j) = name (bs ! j)"
    and "j < length bs \<Longrightarrow> matPoseVerts (bs' ! j) = identity"
proof -
  have a: "\<forall>j < length bs. same_rest (bs ! j) (bs ! j) \<and> matPose (bs ! j) = identity"
    using assms(2) by (simp add: same_rest_def)
  have u: "update_bones bs [0..<length bs] = Inr bs'"
    using assms(3) by (simp add: update_all_def)
  note r = update_bones_identity_pose [OF assms(1) refl a _ _ u]
  show "length bs' = length bs" using r by simp
  show "j < length bs \<Longrightarrow> name (bs' ! j) = name (bs ! j)" using r by (simp add: same_rest_def)
  show "j < length bs \<Longrightarrow> matPoseVerts (bs' ! j) = identity" using r by simp
qed

lemma bone_matrices_fold:
  "foldl (\<lambda>m b. m(name b \<mapsto> matPoseVerts b)) m0 bs n =
     (if n \<in> name ` set bs
      then Some (matPoseVerts (last (filter (\<lambda>b. name b = n) bs)))
      else m0 n)"
proof (induction bs rule: rev_induct)
  case Nil
  show ?case by simp
next
  case (snoc b bs)
  show ?case
    using snoc by (auto simp: image_iff)
qed

lemma bone_matrices_identity:
  assumes "\<forall>b \<in> set bs. matPoseVerts b = identity"
  shows "bone_matrices bs n = (if n \<in> name ` set bs then Some identity else None)"
proof (cases "n \<in> name ` set bs")
  case True
  then have ne: "filter (\<lambda>b. name b = n) bs \<noteq> []"
    by (auto simp: filter_empty_conv)
  have "last (filter (\<lambda>b. name b = n) bs) \<in> set (filter (\<lambda>b. name b = n) bs)"
    using ne by (rule last_in_set)
  then have "matPoseVerts (last (filter (\<lambda>b. name b = n) bs)) = identity"
    using assms by simp
  with True show ?thesis by (simp add: bone_matrices_def bone_matrices_fold)
next
  case False
  then show ?thesis by (simp add: bone_matrices_def bone_matrices_fold)
qed

lemma weighted_transform_identity [simp]: "weighted_transform identity v w = smul w v"
  by (cases v) (simp add: weighted_transform_def dot_vec_def hom_def xyz_def identity_def smul_def)

lemma smul_add: "smul (a + b) v = smul a v + smul b v"
  by (simp add: smul_def plus_vec3_def algebra_simps)

lemma smul_zero_left [simp]: "smul 0 v = 0"
  by (simp add: smul_def zero_vec3_def)

lemma smul_one [simp]: "smul 1 v = v"
  by (cases v) (simp add: smul_def)

lemma add_at_weights_nth:
  "list_all (\<lambda>(i, w). i < length t) e \<Longrightarrow>
   length (add_at_weights t e) = length t \<and>
   (\<forall>i < length t. add_at_weights t e ! i = t ! i + weight_at e i)"
proof (induction e arbitrary: t)
  case Nil
  show ?case by (simp add: add_at_weights_def)
next
  case (Cons p e)
  obtain j w where p: "p = (j, w)" by (cases p)
  have step: "add_at_weights t (p # e) = add_at_weights (t[j := t ! j + w]) e"
    by (simp add: add_at_weights_def p)
  from Cons.prems p have "list_all (\<lambda>(i, x). i < length (t[j := t ! j + w])) e" and j: "j < length t"
    by simp_all
  from Cons.IH [OF this(1)] j show ?case
    unfolding step by (auto simp: p nth_list_update)
qed

lemma map_of_rev_distinct: "distinct (map fst ps) \<Longrightarrow> map_of (rev ps) = map_of ps"
  by (subst map_of_inject_set) (simp_all add: rev_map [symmetric])

lemma scatter_distinct:
  assumes "distinct (map fst ps)" "i < length v"
  shows "scatter v ps ! i = (case map_of ps i of None \<Rightarrow> v ! i | Some x \<Rightarrow> x)"
  using nth_scatter [OF assms(2), of ps] map_of_rev_distinct [OF assms(1)] by simp

lemma map_of_map_snd:
  "map_of (map (\<lambda>(i, w). (i, g i w)) e) i = map_option (g i) (map_of e i)"
  by (induction e) auto

lemma skin_step_identity:
  assumes "distinct (map fst e)" "i < length d"
  shows "scatter d (map (\<lambda>(i, w). (i, d ! i + smul w (verts ! i))) e) ! i
       = d ! i + smul (weight_at e i) (verts ! i)"
proof -
  have dm: "distinct (map fst (map (\<lambda>(i, w). (i, d ! i + smul w (verts ! i))) e))"
    using assms(1) by (simp add: comp_def split_def)
  show ?thesis
    unfolding scatter_distinct [OF dm assms(2)]
      map_of_map_snd [where g = "\<lambda>i w. d ! i + smul w (verts ! i)"]
      weight_at_distinct [OF assms(1)]
    by (simp split: option.splits)
qed

lemma skin_loop_identity:
  assumes "\<forall>n M. bm n = Some M \<longrightarrow> M = identity"
    and "\<forall>(b, e) \<in> set wd. distinct (map fst e)"
    and "length d = length verts" "length t = length verts"
    and "\<forall>i < length verts. d ! i = smul (t ! i) (verts ! i)"
    and "skin_loop bm verts wd (d, t) = Inr (d', t')"
  shows "length d' = length verts \<and> length t' = length verts \<and>
     (\<forall>i < length verts. d' ! i = smul (t' ! i) (verts ! i)
        \<and> t' ! i = t ! i + total_weight_at (filter (\<lambda>(b, e). bm b \<noteq> None) wd) i)"
  using assms(2-6)
proof (induction wd arbitrary: d t)
  case Nil
  then show ?case by (simp add: total_weight_at_def)
next
  case (Cons be wd)
  obtain b e where be: "be = (b, e)" by (cases be)
  from Cons.prems(1) have dw: "\<forall>(b, e) \<in> set wd. distinct (map fst e)"
    and de: "distinct (map fst e)" by (auto simp: be)
  show ?case
  proof (cases "bm b")
    case None
    with Cons.prems(5) have "skin_loop bm verts wd (d, t) = Inr (d', t')" by (simp add: be)
    from Cons.IH [OF dw Cons.prems(2,3,4) this] None show ?thesis
      by (simp add: be total_weight_at_def)
  next
    case (Some M)
    with assms(1) have M: "M = identity" by simp
    from Cons.prems(5) Some have inr: "list_all (\<lambda>(i, w). i < length verts) e"
      by (auto simp: be split: if_splits)
    let ?d = "scatter d (map (\<lambda>(i, w). (i, d ! i + smul w (verts ! i))) e)"
    let ?t = "add_at_weights t e"
    from Cons.prems(5) Some inr M have rest: "skin_loop bm verts wd (?d, ?t) = Inr (d', t')"
      by (simp add: be)
    have inr': "list_all (\<lambda>(i, w). i < length t) e" using inr Cons.prems(3) by simp
    note aw = add_at_weights_nth [OF inr']
    have ld: "length ?d = length verts" using Cons.prems(2) by simp
    have lt: "length ?t = length verts" using aw Cons.prems(3) by simp
    have inv: "\<forall>i < length verts. ?d ! i = smul (?t ! i) (verts ! i)"
    proof (intro allI impI)
      fix i assume i: "i < length verts"
      then have "?d ! i = d ! i + smul (weight_at e i) (verts ! i)"
        using skin_step_identity [OF de, of i d verts] Cons.prems(2) by simp
      also have "\<dots> = smul (t ! i + weight_at e i) (verts ! i)"
        using Cons.prems(4) i by (simp add: smul_add)
      also have "\<dots> = smul (?t ! i) (verts ! i)"
        using aw i Cons.prems(3) by simp
      finally show "?d ! i = smul (?t ! i) (verts ! i)" .
    qed
    from Cons.IH [OF dw ld lt inv rest] aw Cons.prems(3) Some show ?thesis
      by (simp add: be total_weight_at_def add.assoc)
  qed
qed

lemma skin_nth:
  assumes "i < length verts"
  shows "skin verts bs wd ! i =
     (case skin_loop (bone_matrices bs) verts wd
             (replicate (length verts) 0, replicate (length verts) 0) of
        Inl e \<Rightarrow> verts ! i
      | Inr (deformed_verts, total_weight) \<Rightarrow>
          if total_weight ! i < 0.01 then verts ! i else deformed_verts ! i)"
  using assms by (simp add: skin_def split: sum.splits prod.splits)

text \<open>
  Claim C2, as stated, fails: all poses are the identity and the weights of vertex 0 sum
  to 1, but half of the weight is on a bone that the skeleton does not have.  The loop
  passes that bone over, the accumulated weight is 0.5, and the vertex is put at half its
  rest position.
\<close>

theorem skin_identity_pose_counterexample:
  "rest_consistent [rest_bone ''root'' None identity identity]
   \<and> list_all (\<lambda>b. matPose b = identity) [rest_bone ''root'' None identity identity]
   \<and> update_all [rest_bone ''root'' None identity identity]
       = Inr [rest_bone ''root'' None identity identity]
   \<and> total_weight_at [(''root'', [(0, 1/2)]), (''ghost'', [(0, 1/2)])] 0 = 1
   \<and> skin [Vec3 2 0 0] [rest_bone ''root'' None identity identity]
        [(''root'', [(0, 1/2)]), (''ghost'', [(0, 1/2)])] = [Vec3 1 0 0]"
  by (simp add: rest_consistent_def rest_consistent_at_def rest_bone_def update_all_def
      update_bone_def Bone_update_def Bone_update_with_def la_inv_def det4_def det3_def adj4_def smat_def dot_def
      identity_def total_weight_at_def skin_def bone_matrices_def weighted_transform_def
      dot_vec_def hom_def xyz_def smul_def add_at_weights_def zero_vec3_def plus_vec3_def)

text \<open>
  Claim C2, amended.  If the rest matrices are as \<open>Bone.build\<close> leaves them, every bone's
  local pose matrix is the identity and the bones have been updated, no entry of the
  weights dictionary names a vertex twice, and the weights of a vertex over the bones of
  the skeleton (those that the skinning loop does not pass over) sum to 1, then the
  skinning step returns the vertex exactly at its rest position.
\<close>

theorem skin_identity_pose:
  assumes "rest_consistent bs" and "\<forall>b \<in> set bs. matPose b = identity"
    and "update_all bs = Inr bs'"
    and "\<forall>(b_name, e) \<in> set weights_data. distinct (map fst e)"
    and "i < length verts" and "skinned_weight bs' weights_data i = 1"
  shows "skin verts bs' weights_data ! i = verts ! i"
proof -
  note up = update_all_identity_pose [OF assms(1-3)]
  have "\<forall>b \<in> set bs'. matPoseVerts b = identity"
    using up(1,3) by (auto simp: in_set_conv_nth)
  then have bm: "\<forall>n M. bone_matrices bs' n = Some M \<longrightarrow> M = identity"
    by (simp add: bone_matrices_identity)
  let ?z = "(replicate (length verts) (0::vec3), replicate (length verts) (0::real))"
  show ?thesis
  proof (cases "skin_loop (bone_matrices bs') verts weights_data ?z")
    case (Inl e)
    then show ?thesis using assms(5) by (simp add: skin_nth)
  next
    case (Inr dt)
    obtain d t where dt: "dt = (d, t)" by (cases dt)
    have "d ! i = smul (t ! i) (verts ! i) \<and> t ! i =
        0 + total_weight_at (filter (\<lambda>(b, e). bone_matrices bs' b \<noteq> None) weights_data) i"
      using skin_loop_identity [OF bm assms(4) _ _ _ Inr [unfolded dt]] assms(5) by simp
    then have "t ! i = 1" and "d ! i = verts ! i"
      using assms(6) by (simp_all add: skinned_weight_def)
    then show ?thesis using assms(5) Inr dt by (simp add: skin_nth)
  qed
qed

theorem skin_identity_pose_witness:
  "rest_consistent
     [rest_bone ''root'' None (translate (Vec3 0 10 0)) (translate (Vec3 0 10 0)),
      rest_bone ''arm'' (Some 0) (translate (Vec3 0 20 0)) (translate (Vec3 0 10 0))]
   \<and> update_all
     [rest_bone ''root'' None (translate (Vec3 0 10 0)) (translate (Vec3 0 10 0)),
      rest_bone ''arm'' (Some 0) (translate (Vec3 0 20 0)) (translate (Vec3 0 10 0))]
     = Inr
     [rest_bone ''root'' None (translate (Vec3 0 10 0)) (translate (Vec3 0 10 0)),
      rest_bone ''arm'' (Some 0) (translate (Vec3 0 20 0)) (translate (Vec3 0 10 0))]
   \<and> skinned_weight
     [rest_bone ''root'' None (translate (Vec3 0 10 0)) (translate (Vec3 0 10 0)),
      rest_bone ''arm'' (Some 0) (translate (Vec3 0 20 0)) (translate (Vec3 0 10 0))]
     [(''root'', [(0, 1/4), (1, 1)]), (''arm'', [(0, 3/4)])] 0 = 1
   \<and> skin [Vec3 1 2 3, Vec3 4 5 6]
     [rest_bone ''root'' None (translate (Vec3 0 10 0)) (translate (Vec3 0 10 0)),
      rest_bone ''arm'' (Some 0) (translate (Vec3 0 20 0)) (translate (Vec3 0 10 0))]
     [(''root'', [(0, 1/4), (1, 1)]), (''arm'', [(0, 3/4)])] ! 0 = [Vec3 1 2 3, Vec3 4 5 6] ! 0"
proof -
  let ?bs = "[rest_bone ''root'' None (translate (Vec3 0 10 0)) (translate (Vec3 0 10 0)),
      rest_bone ''arm'' (Some 0) (translate (Vec3 0 20 0)) (translate (Vec3 0 10 0))]"
  let ?wd = "[(''root'', [(0::nat, 1/4::real), (1, 1)]), (''arm'', [(0, 3/4)])]"
  have rc: "rest_consistent ?bs"
    by (simp add: rest_consistent_def rest_consistent_at_def rest_bone_def upt_rec
        la_inv_def det4_def det3_def adj4_def smat_def dot_def translate_def)
  have ps: "\<forall>b \<in> set ?bs. matPose b = identity"
    by (simp add: rest_bone_def)
  have up: "update_all ?bs = Inr ?bs"
    by (simp add: update_all_def upt_rec update_bone_def Bone_update_def Bone_update_with_def rest_bone_def
        la_inv_def det4_def det3_def adj4_def smat_def dot_def translate_def identity_def)
  have ds: "\<forall>(b_name, e) \<in> set ?wd. distinct (map fst e)"
    by simp
  have sw: "skinned_weight ?bs ?wd 0 = 1"
    by (simp add: skinned_weight_def bone_matrices_def rest_bone_def total_weight_at_def)
  have "skin [Vec3 1 2 3, Vec3 4 5 6] ?bs ?wd ! 0 = [Vec3 1 2 3, Vec3 4 5 6] ! 0"
    using skin_identity_pose [OF rc ps up ds _ sw, of "[Vec3 1 2 3, Vec3 4 5 6]"] by simp
  with rc up sw show ?thesis by simp
qed

text \<open>
  The preview endpoint's skinning block does what claim C3 says: a vertex whose
  accumulated weight is below 0.01 is output at its rest position, and any other vertex is
  output as the accumulated weighted sum, not divided by the accumulated weight.
\<close>

lemma skin_fallback:
  assumes "skin_loop (bone_matrices bs) verts weights_data
             (replicate (length verts) 0, replicate (length verts) 0) = Inr (deformed_verts, total_weight)"
    and "i < length verts"
  shows "total_weight ! i < 0.01 \<Longrightarrow> skin verts bs weights_data ! i = verts ! i"
    and "\<not> total_weight ! i < 0.01 \<Longrightarrow> skin verts bs weights_data ! i = deformed_verts ! i"
  using assms by (simp_all add: skin_nth)

text \<open>
  Claim C3 against \<open>PoseStudio._apply_pose\<close>.  Vertex 1 has no weight on any bone, so its
  accumulated weight is 0; the preview endpoint's skinning returns it at its rest position
  (4, 5, 6), but the pose studio's skinning returns it at the origin.
\<close>

theorem pose_studio_lbs_unweighted:
  "pose_studio_lbs [Vec3 1 2 3, Vec3 4 5 6] [rest_bone ''root'' None identity identity]
       (Some [(''root'', [(0, 1)])])
     = Inr [Vec3 1 2 3, Vec3 0 0 0]
   \<and> skin [Vec3 1 2 3, Vec3 4 5 6] [rest_bone ''root'' None identity identity]
       [(''root'', [(0, 1)])]
     = [Vec3 1 2 3, Vec3 4 5 6]"
  by (simp add: pose_studio_lbs_def skin_def bone_matrices_def rest_bone_def weighted_transform_def
      dot_vec_def hom_def xyz_def smul_def identity_def add_at_weights_def zero_vec3_def
      plus_vec3_def upt_rec)

section \<open>The CCD step: translation and basis columns\<close>

lemma dot_vec_dot: "dot_vec (dot A B) v = dot_vec A (dot_vec B v)"
  by (simp add: dot_vec_def dot_def algebra_simps)

lemma dot_vec_identity [simp]: "dot_vec identity v = v"
  by (cases v) (simp add: dot_vec_def identity_def)

lemma dot_vec_zero [simp]: "dot_vec A (Vec4 0 0 0 0) = Vec4 0 0 0 0"
  by (simp add: dot_vec_def)

lemma invertible_kernel:
  assumes "la_inv G = Inr iG" "dot_vec G v = Vec4 0 0 0 0"
  shows "v = Vec4 0 0 0 0"
proof -
  have "v = dot_vec (dot iG G) v" by (simp add: la_inv_inverse(2) [OF assms(1)])
  also have "\<dots> = dot_vec iG (dot_vec G v)" by (rule dot_vec_dot)
  finally show ?thesis by (simp add: assms(2))
qed

lemma norm3_zero_iff: "norm3 v = 0 \<longleftrightarrow> v = 0"
proof -
  have "(vx v)\<^sup>2 + (vy v)\<^sup>2 + (vz v)\<^sup>2 = 0 \<longleftrightarrow> vx v = 0 \<and> vy v = 0 \<and> vz v = 0"
    by (simp add: add_nonneg_eq_0_iff)
  then show ?thesis
    by (cases v) (simp add: norm3_def zero_vec3_def)
qed

lemma normalized_None: "normalized v = None \<longleftrightarrow> v = 0"
  by (simp add: normalized_def norm3_zero_iff)

lemma normalized_unit:
  assumes "normalized v = Some u"
  shows "norm3 u = 1"
proof -
  from assms have n: "norm3 v \<noteq> 0"
    and u: "u = Vec3 (vx v / norm3 v) (vy v / norm3 v) (vz v / norm3 v)"
    by (auto simp: normalized_def split: if_splits)
  have sq: "(norm3 v)\<^sup>2 = (vx v)\<^sup>2 + (vy v)\<^sup>2 + (vz v)\<^sup>2"
    by (simp add: norm3_def)
  have "(vx v / norm3 v)\<^sup>2 + (vy v / norm3 v)\<^sup>2 + (vz v / norm3 v)\<^sup>2
      = ((vx v)\<^sup>2 + (vy v)\<^sup>2 + (vz v)\<^sup>2) / (norm3 v)\<^sup>2"
    by (simp add: power_divide add_divide_distrib)
  also have "\<dots> = 1"
  proof -
    from n have "(norm3 v)\<^sup>2 \<noteq> 0" by simp
    then show ?thesis unfolding sq by simp
  qed
  finally show ?thesis by (simp add: norm3_def u)
qed


lemma affine_inverse_direction:
  assumes "la_inv G = Inr iG" "bottom_row G = Vec4 0 0 0 1"
    and "xyz (dot_vec iG (hom axis 0)) = 0"
  shows "axis = 0"
proof -
  obtain c where x: "dot_vec iG (hom axis 0) = Vec4 0 0 0 c"
    using assms(3) by (cases "dot_vec iG (hom axis 0)") (simp add: xyz_def zero_vec3_def)
  have "hom axis 0 = dot_vec (dot G iG) (hom axis 0)"
    by (simp add: la_inv_inverse(1) [OF assms(1)])
  also have "\<dots> = dot_vec G (Vec4 0 0 0 c)"
    by (simp add: dot_vec_dot x)
  finally have h: "hom axis 0 = dot_vec G (Vec4 0 0 0 c)" .
  from assms(2) have "m33 G = 1" by (simp add: bottom_row_def)
  with h have "c = 0" by (simp add: hom_def dot_vec_def)
  with h show ?thesis by (cases axis) (simp add: hom_def zero_vec3_def)
qed

lemma product_column_nonzero:
  assumes "la_inv G = Inr iG" "G = dot pre M" "bottom_row M = Vec4 0 0 0 1"
    and "bottom_row R = Vec4 0 0 0 1"
  shows "col0 (dot M R) = 0 \<Longrightarrow> col0 R = 0"
    and "col1 (dot M R) = 0 \<Longrightarrow> col1 R = 0"
    and "col2 (dot M R) = 0 \<Longrightarrow> col2 R = 0"
proof -
  have k: "v = Vec4 0 0 0 0" if "dot_vec M v = Vec4 0 0 0 0" for v
  proof -
    have "dot_vec G v = dot_vec pre (dot_vec M v)" by (simp add: assms(2) dot_vec_dot)
    with that have "dot_vec G v = Vec4 0 0 0 0" by simp
    with assms(1) show ?thesis by (rule invertible_kernel)
  qed
  from assms(3,4) have b: "m30 M = 0" "m31 M = 0" "m32 M = 0" "m30 R = 0" "m31 R = 0" "m32 R = 0"
    by (simp_all add: bottom_row_def)
  show "col0 R = 0" if "col0 (dot M R) = 0"
  proof -
    from that b have "dot_vec M (Vec4 (m00 R) (m10 R) (m20 R) (m30 R)) = Vec4 0 0 0 0"
      by (simp add: col0_def dot_def dot_vec_def zero_vec3_def)
    from k [OF this] show ?thesis by (simp add: col0_def zero_vec3_def)
  qed
  show "col1 R = 0" if "col1 (dot M R) = 0"
  proof -
    from that b have "dot_vec M (Vec4 (m01 R) (m11 R) (m21 R) (m31 R)) = Vec4 0 0 0 0"
      by (simp add: col1_def dot_def dot_vec_def zero_vec3_def)
    from k [OF this] show ?thesis by (simp add: col1_def zero_vec3_def)
  qed
  show "col2 R = 0" if "col2 (dot M R) = 0"
  proof -
    from that b have "dot_vec M (Vec4 (m02 R) (m12 R) (m22 R) (m32 R)) = Vec4 0 0 0 0"
      by (simp add: col2_def dot_def dot_vec_def zero_vec3_def)
    from k [OF this] show ?thesis by (simp add: col2_def zero_vec3_def)
  qed
qed

lemma set_col_simps [simp]:
  "col0 (set_col3 M c) = col0 M" "col1 (set_col3 M c) = col1 M" "col2 (set_col3 M c) = col2 M"
  "col3 (set_col0 M c) = col3 M" "col3 (set_col1 M c) = col3 M" "col3 (set_col2 M c) = col3 M"
  "col0 (set_col0 M c) = c" "col1 (set_col1 M c) = c" "col2 (set_col2 M c) = c"
  "col3 (set_col3 M c) = c"
  "col0 (set_col1 M c) = col0 M" "col0 (set_col2 M c) = col0 M"
  "col1 (set_col0 M c) = col1 M" "col1 (set_col2 M c) = col1 M"
  "col2 (set_col0 M c) = col2 M" "col2 (set_col1 M c) = col2 M"
  by (simp_all add: col0_def col1_def col2_def col3_def set_col0_def set_col1_def set_col2_def
      set_col3_def)

lemma ccd_apply_rotation_cases:
  assumes "matPoseGlobal b = dot pre (matPose b)"
    and "bottom_row (matPoseGlobal b) = Vec4 0 0 0 1"
    and "bottom_row (matPose b) = Vec4 0 0 0 1"
    and "axis \<noteq> 0"
    and "\<forall>u. norm3 u = 1 \<longrightarrow> rotation_like (rotation_matrix angle u)"
  shows "(case ccd_apply_rotation rotation_matrix b axis angle of
            Raises e \<Rightarrow> e = LinAlgError
          | NaN \<Rightarrow> False
          | Rotated b' \<Rightarrow>
              col3 (matPose b') = col3 (matPose b)
              \<and> norm3 (col0 (matPose b')) = 1
              \<and> norm3 (col1 (matPose b')) = 1
              \<and> norm3 (col2 (matPose b')) = 1)"
proof (cases "la_inv (matPoseGlobal b)")
  case (Inl e)
  then have "e = LinAlgError" by (simp add: la_inv_error)
  with Inl show ?thesis by (simp add: ccd_apply_rotation_def)
next
  case (Inr iG)
  have "xyz (dot_vec iG (hom axis 0)) \<noteq> 0"
    using affine_inverse_direction [OF Inr assms(2)] assms(4) by blast
  then obtain local_axis where la: "normalized (xyz (dot_vec iG (hom axis 0))) = Some local_axis"
    using normalized_None by (cases "normalized (xyz (dot_vec iG (hom axis 0)))") auto
  let ?R = "rotation_matrix angle local_axis"
  have R: "rotation_like ?R" using assms(5) normalized_unit [OF la] by simp
  then have Rb: "bottom_row ?R = Vec4 0 0 0 1" by (simp add: rotation_like_def)
  let ?m = "set_col3 (dot (matPose b) ?R) (col3 (matPose b))"
  note nz = product_column_nonzero [OF Inr assms(1) assms(3) Rb]
  from R nz have "col0 ?m \<noteq> 0" "col1 ?m \<noteq> 0" "col2 ?m \<noteq> 0"
    by (auto simp: rotation_like_def)
  then obtain c0 c1 c2 where c: "normalized (col0 ?m) = Some c0" "normalized (col1 ?m) = Some c1"
      "normalized (col2 ?m) = Some c2"
    using normalized_None
    by (cases "normalized (col0 ?m)"; cases "normalized (col1 ?m)"; cases "normalized (col2 ?m)") auto
  have res: "ccd_apply_rotation rotation_matrix b axis angle
      = Rotated (b\<lparr>matPose := set_col2 (set_col1 (set_col0 ?m c0) c1) c2\<rparr>)"
    using c by (simp add: ccd_apply_rotation_def Inr la Let_def)
  show ?thesis
    unfolding res using normalized_unit [OF c(1)] normalized_unit [OF c(2)] normalized_unit [OF c(3)]
    by simp
qed

lemma quaternion_columns:
  fixes p b c d :: real
  assumes "p * p + b * b + c * c + d * d = 1"
  shows "\<not> (p * p + b * b - c * c - d * d = 0 \<and> 2 * (b * c + p * d) = 0 \<and> 2 * (b * d - p * c) = 0)"
    and "\<not> (2 * (b * c - p * d) = 0 \<and> p * p + c * c - b * b - d * d = 0 \<and> 2 * (c * d + p * b) = 0)"
    and "\<not> (2 * (b * d + p * c) = 0 \<and> 2 * (c * d - p * b) = 0 \<and> p * p + d * d - b * b - c * c = 0)"
proof -
  have s0: "(p * p + b * b - c * c - d * d)\<^sup>2 + (2 * (b * c + p * d))\<^sup>2 + (2 * (b * d - p * c))\<^sup>2
      = (p * p + b * b + c * c + d * d)\<^sup>2"
    by algebra
  have s1: "(2 * (b * c - p * d))\<^sup>2 + (p * p + c * c - b * b - d * d)\<^sup>2 + (2 * (c * d + p * b))\<^sup>2
      = (p * p + b * b + c * c + d * d)\<^sup>2"
    by algebra
  have s2: "(2 * (b * d + p * c))\<^sup>2 + (2 * (c * d - p * b))\<^sup>2 + (p * p + d * d - b * b - c * c)\<^sup>2
      = (p * p + b * b + c * c + d * d)\<^sup>2"
    by algebra
  show "\<not> (p * p + b * b - c * c - d * d = 0 \<and> 2 * (b * c + p * d) = 0 \<and> 2 * (b * d - p * c) = 0)"
  proof
    assume z: "p * p + b * b - c * c - d * d = 0 \<and> 2 * (b * c + p * d) = 0 \<and> 2 * (b * d - p * c) = 0"
    have "(p * p + b * b + c * c + d * d)\<^sup>2 = 0" unfolding s0 [symmetric] using z by simp
    then show False unfolding assms by simp
  qed
  show "\<not> (2 * (b * c - p * d) = 0 \<and> p * p + c * c - b * b - d * d = 0 \<and> 2 * (c * d + p * b) = 0)"
  proof
    assume z: "2 * (b * c - p * d) = 0 \<and> p * p + c * c - b * b - d * d = 0 \<and> 2 * (c * d + p * b) = 0"
    have "(p * p + b * b + c * c + d * d)\<^sup>2 = 0" unfolding s1 [symmetric] using z by simp
    then show False unfolding assms by simp
  qed
  show "\<not> (2 * (b * d + p * c) = 0 \<and> 2 * (c * d - p * b) = 0 \<and> p * p + d * d - b * b - c * c = 0)"
  proof
    assume z: "2 * (b * d + p * c) = 0 \<and> 2 * (c * d - p * b) = 0 \<and> p * p + d * d - b * b - c * c = 0"
    have "(p * p + b * b + c * c + d * d)\<^sup>2 = 0" unfolding s2 [symmetric] using z by simp
    then show False unfolding assms by simp
  qed
qed

lemma rotation_matrix_test_rotation_like:
  assumes "norm3 u = 1"
  shows "rotation_like (rotation_matrix_test angle u)"
proof -
  obtain x y z where u: "u = Vec3 x y z" by (cases u)
  define a where "a = cos (angle / 2)"
  define s where "s = sin (angle / 2)"
  define b where "b = x * s"
  define c where "c = y * s"
  define d where "d = z * s"
  from assms have "(norm3 u)\<^sup>2 = 1" by simp
  then have unit: "x\<^sup>2 + y\<^sup>2 + z\<^sup>2 = 1" by (simp add: norm3_def u)
  have "a\<^sup>2 + s\<^sup>2 = 1" by (simp add: a_def s_def)
  then have "a\<^sup>2 + s\<^sup>2 * (x\<^sup>2 + y\<^sup>2 + z\<^sup>2) = 1" by (simp add: unit)
  then have q: "a * a + b * b + c * c + d * d = 1"
    by (simp add: b_def c_def d_def power2_eq_square algebra_simps)
  have R: "rotation_matrix_test angle u = Mat4
           (a * a + b * b - c * c - d * d) (2 * (b * c - a * d)) (2 * (b * d + a * c)) 0
           (2 * (b * c + a * d)) (a * a + c * c - b * b - d * d) (2 * (c * d - a * b)) 0
           (2 * (b * d - a * c)) (2 * (c * d + a * b)) (a * a + d * d - b * b - c * c) 0
           0 0 0 1"
    using assms by (simp add: rotation_matrix_test_def Let_def u a_def s_def b_def c_def d_def)
  note qc = quaternion_columns [OF q]
  have c0: "col0 (rotation_matrix_test angle u) \<noteq> 0"
    using qc(1) by (simp only: R col0_def mat4.sel zero_vec3_def vec3.inject not_False_eq_True)
  have c1: "col1 (rotation_matrix_test angle u) \<noteq> 0"
    using qc(2) by (simp only: R col1_def mat4.sel zero_vec3_def vec3.inject not_False_eq_True)
  have c2: "col2 (rotation_matrix_test angle u) \<noteq> 0"
    using qc(3) by (simp only: R col2_def mat4.sel zero_vec3_def vec3.inject not_False_eq_True)
  from c0 c1 c2 show ?thesis by (simp add: rotation_like_def R bottom_row_def)
qed

text \<open>
  The hypotheses on the state are what the solver's loop provides: \<open>Bone.update\<close>, run
  on every bone before each step, leaves the global pose matrix as a product with the local
  pose matrix, and the step keeps the bottom row of the local pose matrix.
\<close>

lemma Bone_update_factor:
  assumes "Bone_update pg b = Inr b'"
  shows "\<exists>pre. matPoseGlobal b' = dot pre (matPose b')"
proof (cases pg)
  case None
  with assms have "matPoseGlobal b' = dot (matRestRelative b) (matPose b')"
    by (auto simp: Bone_update_total)
  then show ?thesis by blast
next
  case (Some g)
  with assms have "matPoseGlobal b' = dot (dot g (matRestRelative b)) (matPose b')"
    by (auto simp: Bone_update_total dot_assoc)
  then show ?thesis by blast
qed

lemma ccd_apply_rotation_bottom_row:
  assumes "ccd_apply_rotation rotation_matrix b axis angle = Rotated b'"
    and "bottom_row (matPose b) = Vec4 0 0 0 1"
    and "\<forall>u. bottom_row (rotation_matrix angle u) = Vec4 0 0 0 1"
  shows "bottom_row (matPose b') = Vec4 0 0 0 1"
proof -
  have br: "bottom_row (set_col2 (set_col1 (set_col0 (set_col3 (dot M R) p) c0) c1) c2) = Vec4 0 0 0 1"
    if "bottom_row M = Vec4 0 0 0 1" "bottom_row R = Vec4 0 0 0 1" for M R p c0 c1 c2
    using that
    by (simp add: bottom_row_def set_col0_def set_col1_def set_col2_def set_col3_def dot_def)
  from assms(1) obtain u c0 c1 c2 where
    "matPose b' = set_col2 (set_col1 (set_col0
        (set_col3 (dot (matPose b) (rotation_matrix angle u)) (col3 (matPose b))) c0) c1) c2"
    by (auto simp: ccd_apply_rotation_def Let_def split: sum.splits option.splits)
  with br [OF assms(2)] assms(3) show ?thesis by simp
qed

lemma ccd_apply_rotation_rotated:
  assumes "ccd_apply_rotation rotation_matrix b axis angle = Rotated b'"
  shows "col3 (matPose b') = col3 (matPose b)"
    and "norm3 (col0 (matPose b')) = 1"
    and "norm3 (col1 (matPose b')) = 1"
    and "norm3 (col2 (matPose b')) = 1"
proof -
  from assms obtain u c0 c1 c2 where
    c: "normalized (col0 (dot (matPose b) (rotation_matrix angle u))) = Some c0"
      "normalized (col1 (dot (matPose b) (rotation_matrix angle u))) = Some c1"
      "normalized (col2 (dot (matPose b) (rotation_matrix angle u))) = Some c2"
    and b': "matPose b' = set_col2 (set_col1 (set_col0
        (set_col3 (dot (matPose b) (rotation_matrix angle u)) (col3 (matPose b))) c0) c1) c2"
    by (auto simp: ccd_apply_rotation_def Let_def split: sum.splits option.splits)
  show "col3 (matPose b') = col3 (matPose b)" by (simp add: b')
  show "norm3 (col0 (matPose b')) = 1" using normalized_unit [OF c(1)] by (simp add: b')
  show "norm3 (col1 (matPose b')) = 1" using normalized_unit [OF c(2)] by (simp add: b')
  show "norm3 (col2 (matPose b')) = 1" using normalized_unit [OF c(3)] by (simp add: b')
qed

text \<open>
  Claim C9.  In every per-bone step of the CCD loop that applies the rotation, the bone's
  local pose matrix afterwards has the translation column it had before, and each of its
  three basis columns has Euclidean norm 1.  The only exception that the step raises is
  LinAlgError, at \<open>la.inv\<close> and before any change.  An entry can become NaN only outside
  the states that the solver's loop produces: not when the bone's global pose matrix is a
  product pre . localPose (as \<open>Bone.update\<close> leaves it), both pose matrices have the
  bottom row 0 0 0 1, the rotation axis is not zero, and the rotation matrix function
  returns homogeneous matrices with non-zero basis columns.
\<close>

theorem ccd_apply_rotation_frame:
  "(case ccd_apply_rotation rotation_matrix b axis angle of
      Raises e \<Rightarrow> e = LinAlgError
    | NaN \<Rightarrow>
        \<not> ((\<exists>pre. matPoseGlobal b = dot pre (matPose b))
           \<and> bottom_row (matPoseGlobal b) = Vec4 0 0 0 1
           \<and> bottom_row (matPose b) = Vec4 0 0 0 1
           \<and> axis \<noteq> 0
           \<and> (\<forall>u. norm3 u = 1 \<longrightarrow> rotation_like (rotation_matrix angle u)))
    | Rotated b' \<Rightarrow>
        col3 (matPose b') = col3 (matPose b)
        \<and> norm3 (col0 (matPose b')) = 1
        \<and> norm3 (col1 (matPose b')) = 1
        \<and> norm3 (col2 (matPose b')) = 1)"
proof (cases "ccd_apply_rotation rotation_matrix b axis angle")
  case (Raises e)
  then have "la_inv (matPoseGlobal b) = Inl e"
    by (auto simp: ccd_apply_rotation_def Let_def split: sum.splits option.splits)
  then have "e = LinAlgError" by (simp add: la_inv_error)
  with Raises show ?thesis by simp
next
  case NaN
  have "\<not> ((\<exists>pre. matPoseGlobal b = dot pre (matPose b))
           \<and> bottom_row (matPoseGlobal b) = Vec4 0 0 0 1
           \<and> bottom_row (matPose b) = Vec4 0 0 0 1
           \<and> axis \<noteq> 0
           \<and> (\<forall>u. norm3 u = 1 \<longrightarrow> rotation_like (rotation_matrix angle u)))"
  proof
    assume h: "(\<exists>pre. matPoseGlobal b = dot pre (matPose b))
           \<and> bottom_row (matPoseGlobal b) = Vec4 0 0 0 1
           \<and> bottom_row (matPose b) = Vec4 0 0 0 1
           \<and> axis \<noteq> 0
           \<and> (\<forall>u. norm3 u = 1 \<longrightarrow> rotation_like (rotation_matrix angle u))"
    then obtain pre where pre: "matPoseGlobal b = dot pre (matPose b)" by blast
    from h have h2: "bottom_row (matPoseGlobal b) = Vec4 0 0 0 1"
      and h3: "bottom_row (matPose b) = Vec4 0 0 0 1" and h4: "axis \<noteq> 0"
      and h5: "\<forall>u. norm3 u = 1 \<longrightarrow> rotation_like (rotation_matrix angle u)"
      by blast+
    from ccd_apply_rotation_cases [where rotation_matrix = rotation_matrix and angle = angle,
        OF pre h2 h3 h4 h5] NaN show False by simp
  qed
  with NaN show ?thesis by simp
next
  case (Rotated b')
  with ccd_apply_rotation_rotated [OF Rotated] show ?thesis by simp
qed

theorem ccd_apply_rotation_frame_witness:
  "matPoseGlobal
       ((rest_bone ''mid'' (Some 0) (translate (Vec3 0 10 0)) (translate (Vec3 0 10 0)))
          \<lparr>matPose := translate (Vec3 0 10 0), matPoseGlobal := dot identity (translate (Vec3 0 10 0))\<rparr>)
     = dot identity (matPose
       ((rest_bone ''mid'' (Some 0) (translate (Vec3 0 10 0)) (translate (Vec3 0 10 0)))
          \<lparr>matPose := translate (Vec3 0 10 0), matPoseGlobal := dot identity (translate (Vec3 0 10 0))\<rparr>))
   \<and> bottom_row (translate (Vec3 0 10 0)) = Vec4 0 0 0 1
   \<and> rotation_like (rotation_matrix_test pi (Vec3 0 0 1))
   \<and> ccd_apply_rotation rotation_matrix_test
       ((rest_bone ''mid'' (Some 0) (translate (Vec3 0 10 0)) (translate (Vec3 0 10 0)))
          \<lparr>matPose := translate (Vec3 0 10 0), matPoseGlobal := dot identity (translate (Vec3 0 10 0))\<rparr>)
       (Vec3 0 0 1) pi
     = Rotated
       ((rest_bone ''mid'' (Some 0) (translate (Vec3 0 10 0)) (translate (Vec3 0 10 0)))
          \<lparr>matPose := Mat4 (- 1) 0 0 0  0 (- 1) 0 10  0 0 1 0  0 0 0 1,
            matPoseGlobal := dot identity (translate (Vec3 0 10 0))\<rparr>)
   \<and> col3 (Mat4 (- 1) 0 0 0  0 (- 1) 0 10  0 0 1 0  0 0 0 1) = col3 (translate (Vec3 0 10 0))
   \<and> norm3 (col0 (Mat4 (- 1) 0 0 0  0 (- 1) 0 10  0 0 1 0  0 0 0 1)) = 1
   \<and> norm3 (col1 (Mat4 (- 1) 0 0 0  0 (- 1) 0 10  0 0 1 0  0 0 0 1)) = 1
   \<and> norm3 (col2 (Mat4 (- 1) 0 0 0  0 (- 1) 0 10  0 0 1 0  0 0 0 1)) = 1"
proof -
  let ?b = "(rest_bone ''mid'' (Some 0) (translate (Vec3 0 10 0)) (translate (Vec3 0 10 0)))
          \<lparr>matPose := translate (Vec3 0 10 0), matPoseGlobal := dot identity (translate (Vec3 0 10 0))\<rparr>"
  have h1: "matPoseGlobal ?b = dot identity (matPose ?b)" by (simp add: rest_bone_def)
  have h2: "bottom_row (matPoseGlobal ?b) = Vec4 0 0 0 1"
    by (simp add: rest_bone_def bottom_row_def translate_def)
  have h3: "bottom_row (matPose ?b) = Vec4 0 0 0 1"
    by (simp add: rest_bone_def bottom_row_def translate_def)
  have h4: "Vec3 0 0 1 \<noteq> 0" by (simp add: zero_vec3_def)
  have h5: "\<forall>u. norm3 u = 1 \<longrightarrow> rotation_like (rotation_matrix_test pi u)"
    by (simp add: rotation_matrix_test_rotation_like)
  have res: "ccd_apply_rotation rotation_matrix_test ?b (Vec3 0 0 1) pi
     = Rotated
       ((rest_bone ''mid'' (Some 0) (translate (Vec3 0 10 0)) (translate (Vec3 0 10 0)))
          \<lparr>matPose := Mat4 (- 1) 0 0 0  0 (- 1) 0 10  0 0 1 0  0 0 0 1,
            matPoseGlobal := dot identity (translate (Vec3 0 10 0))\<rparr>)"
    by (simp add: ccd_apply_rotation_def rest_bone_def la_inv_def det4_def det3_def adj4_def
        smat_def dot_def dot_vec_def hom_def xyz_def translate_def identity_def normalized_def
        norm3_def rotation_matrix_test_def Let_def col0_def col1_def col2_def col3_def
        set_col0_def set_col1_def set_col2_def set_col3_def)
  have r: "rotation_like (rotation_matrix_test pi (Vec3 0 0 1))"
    using h5 by (simp add: norm3_def)
  have t: "bottom_row (translate (Vec3 0 10 0)) = Vec4 0 0 0 1"
    using h3 by (simp add: rest_bone_def)
  show ?thesis
    using ccd_apply_rotation_frame [where b = ?b and axis = "Vec3 0 0 1"
        and rotation_matrix = rotation_matrix_test and angle = pi] res h1 r t
    by (simp add: rest_bone_def)
qed

section \<open>Pose transfer: independence of the previous pose\<close>

lemma same_rest_updated:
  assumes "same_rest a b"
  shows "updated pg (a\<lparr>matPose := P\<rparr>) = updated pg (b\<lparr>matPose := P\<rparr>)"
  using assms
  by (intro bone.equality) (simp_all add: same_rest_def updated_def Let_def split: option.splits sum.splits)

lemma same_rest_updated_keeps:
  "same_rest (updated pg (a\<lparr>matPose := P\<rparr>)) b = same_rest a b"
  by (simp add: same_rest_def updated_def Let_def)

lemma reset_pose_agree:
  assumes "length bs1 = length bs2" "k \<le> length bs1"
    and "\<forall>j < k. bs1 ! j = bs2 ! j"
    and "\<forall>j < length bs1. same_rest (bs1 ! j) (bs2 ! j)"
    and "\<forall>j < length bs1. case parent (bs1 ! j) of None \<Rightarrow> True | Some p \<Rightarrow> p < j"
  shows "reset_pose bs1 [k..<length bs1] = reset_pose bs2 [k..<length bs1]"
  using assms
proof (induction "length bs1 - k" arbitrary: k bs1 bs2)
  case 0
  then have "k = length bs1" by simp
  moreover from 0 have "bs1 = bs2" by (intro nth_equalityI) simp_all
  ultimately show ?case by simp
next
  case (Suc d)
  then have k: "k < length bs1" and k2: "k < length bs2" by simp_all
  have upt: "[k..<length bs1] = k # [Suc k..<length bs1]"
    using k by (simp add: upt_conv_Cons)
  have sr: "same_rest (bs1 ! k) (bs2 ! k)" using Suc.prems(4) k by simp
  then have par: "parent (bs1 ! k) = parent (bs2 ! k)" by (simp add: same_rest_def)
  let ?pg1 = "map_option (\<lambda>p. matPoseGlobal (bs1[k := (bs1 ! k)\<lparr>matPose := identity\<rparr>] ! p))
                (parent (bs1 ! k))"
  let ?pg2 = "map_option (\<lambda>p. matPoseGlobal (bs2[k := (bs2 ! k)\<lparr>matPose := identity\<rparr>] ! p))
                (parent (bs2 ! k))"
  have pg: "?pg1 = ?pg2"
  proof (cases "parent (bs1 ! k)")
    case None
    with par show ?thesis by simp
  next
    case (Some p)
    with Suc.prems(5) k have "p < k" by (auto split: option.splits)
    with Suc.prems(3) have "bs1 ! p = bs2 ! p" by simp
    with Some par \<open>p < k\<close> show ?thesis by simp
  qed
  let ?b1 = "updated ?pg1 ((bs1 ! k)\<lparr>matPose := identity\<rparr>)"
  let ?b2 = "updated ?pg2 ((bs2 ! k)\<lparr>matPose := identity\<rparr>)"
  have b: "?b1 = ?b2" unfolding pg using sr by (rule same_rest_updated)
  have st1: "reset_pose bs1 [k..<length bs1] = reset_pose (bs1[k := ?b1]) [Suc k..<length bs1]"
    unfolding upt using k by (simp add: update_bone_updated)
  have st2: "reset_pose bs2 [k..<length bs1] = reset_pose (bs2[k := ?b2]) [Suc k..<length bs1]"
    unfolding upt using k2 by (simp add: update_bone_updated)
  have len: "length (bs1[k := ?b1]) = length (bs2[k := ?b2])" using Suc.prems(1) by simp
  have agree: "\<forall>j < Suc k. (bs1[k := ?b1]) ! j = (bs2[k := ?b2]) ! j"
    using Suc.prems(3) k k2 b by (auto simp: nth_list_update less_Suc_eq)
  have rest: "\<forall>j < length (bs1[k := ?b1]). same_rest ((bs1[k := ?b1]) ! j) ((bs2[k := ?b2]) ! j)"
  proof (intro allI impI)
    fix j assume j: "j < length (bs1[k := ?b1])"
    show "same_rest ((bs1[k := ?b1]) ! j) ((bs2[k := ?b2]) ! j)"
    proof (cases "j = k")
      case True
      then show ?thesis using k k2 b sr
        by (simp add: same_rest_def updated_def Let_def)
    next
      case False
      then show ?thesis using Suc.prems(4) j by simp
    qed
  qed
  have pf: "\<forall>j < length (bs1[k := ?b1]).
      case parent ((bs1[k := ?b1]) ! j) of None \<Rightarrow> True | Some p \<Rightarrow> p < j"
  proof (intro allI impI)
    fix j assume j: "j < length (bs1[k := ?b1])"
    have "parent ((bs1[k := ?b1]) ! j) = parent (bs1 ! j)"
      using k by (cases "j = k") (simp_all add: updated_def Let_def)
    then show "case parent ((bs1[k := ?b1]) ! j) of None \<Rightarrow> True | Some p \<Rightarrow> p < j"
      using Suc.prems(5) j by simp
  qed
  have d: "d = length (bs1[k := ?b1]) - Suc k" using Suc.hyps(2) by simp
  have "reset_pose (bs1[k := ?b1]) [Suc k..<length (bs1[k := ?b1])]
      = reset_pose (bs2[k := ?b2]) [Suc k..<length (bs1[k := ?b1])]"
    using k by (intro Suc.hyps(1) [OF d len _ agree rest pf]) simp
  then show ?case unfolding st1 st2 by simp
qed

text \<open>
  Claim C10.  \<open>apply_pose\<close> first sets every bone's local pose matrix to the identity and
  updates it.  So for two states of one skeleton (the same rest configuration, parents
  before children) and the same landmarks, the result, all bone matrices or the exception,
  is the same whatever the pose matrices were before the call.
\<close>

theorem apply_pose_independent:
  assumes "same_skeleton bs1 bs2" and "parents_first bs1"
  shows "apply_pose mx bs1 op_dict = apply_pose mx bs2 op_dict"
proof -
  from assms(1) have len: "length bs1 = length bs2"
    and sr: "\<forall>j < length bs1. same_rest (bs1 ! j) (bs2 ! j)"
    by (simp_all add: same_skeleton_def list_all2_conv_all_nth)
  from assms(2) have pf: "\<forall>j < length bs1. case parent (bs1 ! j) of None \<Rightarrow> True | Some p \<Rightarrow> p < j"
    by (simp add: parents_first_def list_all_iff)
  have "reset_pose bs1 [0..<length bs1] = reset_pose bs2 [0..<length bs1]"
    by (rule reset_pose_agree [OF len _ _ sr pf]) simp_all
  then show ?thesis by (simp add: apply_pose_def len)
qed

theorem apply_pose_independent_witness:
  "same_skeleton
     [(rest_bone ''upperarm_l'' None (translate (Vec3 0 10 0)) (translate (Vec3 0 10 0)))
        \<lparr>matPose := translate (Vec3 5 5 5), matPoseGlobal := translate (Vec3 1 2 3),
          matPoseVerts := translate (Vec3 7 7 7)\<rparr>]
     [rest_bone ''upperarm_l'' None (translate (Vec3 0 10 0)) (translate (Vec3 0 10 0))]
   \<and> parents_first
     [(rest_bone ''upperarm_l'' None (translate (Vec3 0 10 0)) (translate (Vec3 0 10 0)))
        \<lparr>matPose := translate (Vec3 5 5 5), matPoseGlobal := translate (Vec3 1 2 3),
          matPoseVerts := translate (Vec3 7 7 7)\<rparr>]
   \<and> apply_pose matrix_test
     [(rest_bone ''upperarm_l'' None (translate (Vec3 0 10 0)) (translate (Vec3 0 10 0)))
        \<lparr>matPose := translate (Vec3 5 5 5), matPoseGlobal := translate (Vec3 1 2 3),
          matPoseVerts := translate (Vec3 7 7 7)\<rparr>]
     [''r_shoulder'' \<mapsto> Vec3 0 0 0, ''r_elbow'' \<mapsto> Vec3 0 (- 1) 0]
     = apply_pose matrix_test
     [rest_bone ''upperarm_l'' None (translate (Vec3 0 10 0)) (translate (Vec3 0 10 0))]
     [''r_shoulder'' \<mapsto> Vec3 0 0 0, ''r_elbow'' \<mapsto> Vec3 0 (- 1) 0]
   \<and> apply_pose matrix_test
     [rest_bone ''upperarm_l'' None (translate (Vec3 0 10 0)) (translate (Vec3 0 10 0))]
     [''r_shoulder'' \<mapsto> Vec3 0 0 0, ''r_elbow'' \<mapsto> Vec3 0 (- 1) 0]
     = Inr [rest_bone ''upperarm_l'' None (translate (Vec3 0 10 0)) (translate (Vec3 0 10 0))]"
proof -
  let ?b = "rest_bone ''upperarm_l'' None (translate (Vec3 0 10 0)) (translate (Vec3 0 10 0))"
  let ?b' = "?b\<lparr>matPose := translate (Vec3 5 5 5), matPoseGlobal := translate (Vec3 1 2 3),
          matPoseVerts := translate (Vec3 7 7 7)\<rparr>"
  let ?lm = "[''r_shoulder'' \<mapsto> Vec3 0 0 0, ''r_elbow'' \<mapsto> Vec3 0 (- 1) 0]"
  have s: "same_skeleton [?b'] [?b]"
    by (simp add: same_skeleton_def same_rest_def rest_bone_def)
  have p: "parents_first [?b']"
    by (simp add: parents_first_def rest_bone_def)
  have e: "apply_pose matrix_test [?b] ?lm = Inr [?b]"
    by (simp add: apply_pose_def update_bone_updated updated_def CHAINS_def getBone_def
        align_bone_def matrix_test_def rest_bone_def Let_def la_inv_def det4_def det3_def adj4_def
        smat_def dot_def dot_vec_def hom_def xyz_def translate_def identity_def vsub_def vdot_def
        normalized_def norm3_def)
  from apply_pose_independent [OF s p, of matrix_test ?lm] s p e show ?thesis by simp
qed

end
